theory Spec2Isabelle
  imports Complex_Main "HOL-Library.AList" "HOL-Library.Multiset"
begin

section \<open>JavaScript values and objects\<close>

text \<open>
  The server is TypeScript; at run time its records are plain JavaScript objects whose
  properties hold arbitrary values (\<open>req.body\<close> and the result of \<open>JSON.parse\<close> are of type
  \<open>any\<close>). A value is one of the JavaScript kinds below; numbers are the finite ones
  (rationals), a \<open>Date\<close> is a valid one, given by its time value in milliseconds. An
  object is a partial map from property names to values; a name outside the domain is a
  property the object does not have, and reading it gives \<open>undefined\<close>.
\<close>

datatype jsval =
    VUndefined
  | VNull
  | VBool bool
  | VNum rat
  | VStr string
  | VDate int
  | VObj "(string \<times> jsval) list"
  | VArr "jsval list"

type_synonym obj = "string \<Rightarrow> jsval option"

text \<open>Property access \<open>o.k\<close> on an object.\<close>

definition get_prop :: "obj \<Rightarrow> string \<Rightarrow> jsval" where
  "get_prop ob k = (case ob k of None \<Rightarrow> VUndefined | Some v \<Rightarrow> v)"

text \<open>JavaScript truthiness: \<open>undefined\<close>, \<open>null\<close>, \<open>false\<close>, \<open>0\<close> and the empty string
  are falsy, every object (a \<open>Date\<close> too) is truthy.\<close>

fun truthy :: "jsval \<Rightarrow> bool" where
  "truthy VUndefined = False"
| "truthy VNull = False"
| "truthy (VBool b) = b"
| "truthy (VNum n) = (n \<noteq> 0)"
| "truthy (VStr s) = (s \<noteq> [])"
| "truthy (VDate t) = True"
| "truthy (VObj kvs) = True"
| "truthy (VArr vs) = True"

text \<open>The operator \<open>a || b\<close>.\<close>

definition js_or :: "jsval \<Rightarrow> jsval \<Rightarrow> jsval" where
  "js_or a b = (if truthy a then a else b)"

text \<open>Object spread \<open>{...a, ...b}\<close>: the properties of \<open>b\<close> override those of \<open>a\<close>.\<close>

definition spread :: "obj \<Rightarrow> obj \<Rightarrow> obj" where
  "spread a b = a ++ b"

section \<open>The in-memory Event Store: class MemStorage\<close>

text \<open>Source: the storage module, which follows the routes in server/routes.ts (from line 350; the
  class at lines 661 to 969).\<close>

text \<open>
  Each table is a JavaScript \<open>Map<number, T>\<close>, which iterates in insertion order:
  an association list in that order. \<open>Map.get\<close> is \<open>map_of\<close>; \<open>Map.set\<close> is
  \<open>AList.update\<close>, which replaces the value of a key in place and appends a new key at
  the end, as \<open>Map.set\<close> does. One counter \<open>currentId\<close> serves all tables.
\<close>

type_synonym 'a table = "(nat \<times> 'a) list"

record mem_storage =
  users :: "obj table"
  agents :: "obj table"
  alerts :: "obj table"
  incidents :: "obj table"
  logs :: "obj table"
  responseActions :: "obj table"
  llmInsights :: "obj table"
  currentId :: nat

text \<open>\<open>Array.from(map.values())\<close>.\<close>

definition values_of :: "'a table \<Rightarrow> 'a list" where
  "values_of t = map snd t"

text \<open>
  The \<open>create\<close> methods. \<open>const id = this.currentId++\<close> reads the counter and then
  increments it; \<open>new Date()\<close> is the server clock, the parameter \<open>now\<close> (one value for
  the clock reads of one call). The object literal spreads the input first and then sets
  \<open>id\<close>, \<open>createdAt\<close> and the defaulted properties, so those entries override whatever the
  input carried under the same names. Each literal is a function of its own here
  (\<open>user_record\<close>, \<open>agent_record\<close>, ...), called by the method.
\<close>

definition user_record :: "obj \<Rightarrow> nat \<Rightarrow> int \<Rightarrow> obj" where
  "user_record insertUser ident now =
    spread insertUser
       [''id'' \<mapsto> VNum (of_nat ident), ''createdAt'' \<mapsto> VDate now]"

definition createUser :: "obj \<Rightarrow> int \<Rightarrow> mem_storage \<Rightarrow> obj \<times> mem_storage" where
  "createUser insertUser now s =
    (let id = currentId s;
         user = user_record insertUser id now
     in (user, s\<lparr>users := AList.update id user (users s), currentId := id + 1\<rparr>))"

definition agent_record :: "obj \<Rightarrow> nat \<Rightarrow> int \<Rightarrow> obj" where
  "agent_record insertAgent ident now =
    spread insertAgent
       [''id'' \<mapsto> VNum (of_nat ident),
        ''createdAt'' \<mapsto> VDate now,
        ''status'' \<mapsto> js_or (get_prop insertAgent ''status'') (VStr ''inactive''),
        ''lastActive'' \<mapsto> js_or (get_prop insertAgent ''lastActive'') (VDate now),
        ''metadata'' \<mapsto> js_or (get_prop insertAgent ''metadata'') (VObj [])]"

definition createAgent :: "obj \<Rightarrow> int \<Rightarrow> mem_storage \<Rightarrow> obj \<times> mem_storage" where
  "createAgent insertAgent now s =
    (let id = currentId s;
         agent = agent_record insertAgent id now
     in (agent, s\<lparr>agents := AList.update id agent (agents s), currentId := id + 1\<rparr>))"

definition alert_record :: "obj \<Rightarrow> nat \<Rightarrow> int \<Rightarrow> obj" where
  "alert_record insertAlert ident now =
    spread insertAlert
       [''id'' \<mapsto> VNum (of_nat ident),
        ''createdAt'' \<mapsto> VDate now,
        ''timestamp'' \<mapsto> js_or (get_prop insertAlert ''timestamp'') (VDate now),
        ''status'' \<mapsto> js_or (get_prop insertAlert ''status'') (VStr ''new''),
        ''metadata'' \<mapsto> js_or (get_prop insertAlert ''metadata'') (VObj []),
        ''agentId'' \<mapsto> js_or (get_prop insertAlert ''agentId'') VNull,
        ''incidentId'' \<mapsto> js_or (get_prop insertAlert ''incidentId'') VNull]"

definition createAlert :: "obj \<Rightarrow> int \<Rightarrow> mem_storage \<Rightarrow> obj \<times> mem_storage" where
  "createAlert insertAlert now s =
    (let id = currentId s;
         alert = alert_record insertAlert id now
     in (alert, s\<lparr>alerts := AList.update id alert (alerts s), currentId := id + 1\<rparr>))"

definition incident_record :: "obj \<Rightarrow> nat \<Rightarrow> int \<Rightarrow> obj" where
  "incident_record insertIncident ident now =
    spread insertIncident
       [''id'' \<mapsto> VNum (of_nat ident),
        ''createdAt'' \<mapsto> VDate now,
        ''timestamp'' \<mapsto> js_or (get_prop insertIncident ''timestamp'') (VDate now),
        ''status'' \<mapsto> js_or (get_prop insertIncident ''status'') (VStr ''open''),
        ''metadata'' \<mapsto> js_or (get_prop insertIncident ''metadata'') (VObj [])]"

definition createIncident :: "obj \<Rightarrow> int \<Rightarrow> mem_storage \<Rightarrow> obj \<times> mem_storage" where
  "createIncident insertIncident now s =
    (let id = currentId s;
         incident = incident_record insertIncident id now
     in (incident,
         s\<lparr>incidents := AList.update id incident (incidents s), currentId := id + 1\<rparr>))"

definition log_record :: "obj \<Rightarrow> nat \<Rightarrow> int \<Rightarrow> obj" where
  "log_record insertLog ident now =
    spread insertLog
       [''id'' \<mapsto> VNum (of_nat ident),
        ''createdAt'' \<mapsto> VDate now,
        ''timestamp'' \<mapsto> js_or (get_prop insertLog ''timestamp'') (VDate now),
        ''metadata'' \<mapsto> js_or (get_prop insertLog ''metadata'') (VObj []),
        ''agentId'' \<mapsto> js_or (get_prop insertLog ''agentId'') VNull]"

definition createLog :: "obj \<Rightarrow> int \<Rightarrow> mem_storage \<Rightarrow> obj \<times> mem_storage" where
  "createLog insertLog now s =
    (let id = currentId s;
         log = log_record insertLog id now
     in (log, s\<lparr>logs := AList.update id log (logs s), currentId := id + 1\<rparr>))"

definition action_record :: "obj \<Rightarrow> nat \<Rightarrow> int \<Rightarrow> obj" where
  "action_record insertAction ident now =
    spread insertAction
       [''id'' \<mapsto> VNum (of_nat ident),
        ''createdAt'' \<mapsto> VDate now,
        ''status'' \<mapsto> js_or (get_prop insertAction ''status'') (VStr ''pending''),
        ''metadata'' \<mapsto> js_or (get_prop insertAction ''metadata'') (VObj []),
        ''lastExecuted'' \<mapsto> js_or (get_prop insertAction ''lastExecuted'') VNull,
        ''incidentId'' \<mapsto> js_or (get_prop insertAction ''incidentId'') VNull]"

definition createResponseAction :: "obj \<Rightarrow> int \<Rightarrow> mem_storage \<Rightarrow> obj \<times> mem_storage" where
  "createResponseAction insertAction now s =
    (let id = currentId s;
         action = action_record insertAction id now
     in (action,
         s\<lparr>responseActions := AList.update id action (responseActions s),
           currentId := id + 1\<rparr>))"

definition insight_record :: "obj \<Rightarrow> nat \<Rightarrow> int \<Rightarrow> obj" where
  "insight_record insertInsight ident now =
    spread insertInsight
       [''id'' \<mapsto> VNum (of_nat ident),
        ''createdAt'' \<mapsto> VDate now,
        ''timestamp'' \<mapsto> js_or (get_prop insertInsight ''timestamp'') (VDate now),
        ''metadata'' \<mapsto> js_or (get_prop insertInsight ''metadata'') (VObj []),
        ''recommendation'' \<mapsto> js_or (get_prop insertInsight ''recommendation'') VNull,
        ''incidentId'' \<mapsto> js_or (get_prop insertInsight ''incidentId'') VNull]"

definition createLlmInsight :: "obj \<Rightarrow> int \<Rightarrow> mem_storage \<Rightarrow> obj \<times> mem_storage" where
  "createLlmInsight insertInsight now s =
    (let id = currentId s;
         insight = insight_record insertInsight id now
     in (insight,
         s\<lparr>llmInsights := AList.update id insight (llmInsights s), currentId := id + 1\<rparr>))"

text \<open>
  The \<open>update\<close> methods: \<open>if (!x) return undefined\<close> for an id the table does not hold
  (\<open>None\<close>), otherwise the stored record spread with the patch is stored under the same key
  and returned.
\<close>

definition updateAgent :: "nat \<Rightarrow> obj \<Rightarrow> mem_storage \<Rightarrow> obj option \<times> mem_storage" where
  "updateAgent ident updates s =
    (case map_of (agents s) ident of
       None \<Rightarrow> (None, s)
     | Some agent \<Rightarrow>
         (let updatedAgent = spread agent updates
          in (Some updatedAgent, s\<lparr>agents := AList.update ident updatedAgent (agents s)\<rparr>)))"

definition updateAlert :: "nat \<Rightarrow> obj \<Rightarrow> mem_storage \<Rightarrow> obj option \<times> mem_storage" where
  "updateAlert ident updates s =
    (case map_of (alerts s) ident of
       None \<Rightarrow> (None, s)
     | Some alert \<Rightarrow>
         (let updatedAlert = spread alert updates
          in (Some updatedAlert, s\<lparr>alerts := AList.update ident updatedAlert (alerts s)\<rparr>)))"

definition updateIncident :: "nat \<Rightarrow> obj \<Rightarrow> mem_storage \<Rightarrow> obj option \<times> mem_storage" where
  "updateIncident ident updates s =
    (case map_of (incidents s) ident of
       None \<Rightarrow> (None, s)
     | Some incident \<Rightarrow>
         (let updatedIncident = spread incident updates
          in (Some updatedIncident,
              s\<lparr>incidents := AList.update ident updatedIncident (incidents s)\<rparr>)))"

definition updateResponseAction ::
  "nat \<Rightarrow> obj \<Rightarrow> mem_storage \<Rightarrow> obj option \<times> mem_storage" where
  "updateResponseAction ident updates s =
    (case map_of (responseActions s) ident of
       None \<Rightarrow> (None, s)
     | Some action \<Rightarrow>
         (let updatedAction = spread action updates
          in (Some updatedAction,
              s\<lparr>responseActions := AList.update ident updatedAction (responseActions s)\<rparr>)))"

text \<open>
  The \<open>list\<close> methods. \<open>getAgents\<close> and \<open>getResponseActions\<close> return the table's values as
  they iterate. The other four sort the values with the comparator
  \<open>(a, b) => new Date(b.timestamp).getTime() - new Date(a.timestamp).getTime()\<close> and then
  cut the result when \<open>limit\<close> is truthy.

  The conversion \<open>new Date(v).getTime()\<close> belongs to the platform and is the parameter \<open>tm\<close>:
  the time value in milliseconds, or \<open>NaN\<close> (\<open>None\<close>) when \<open>v\<close> is not a valid time (a
  missing timestamp, a text that is no date). The difference of two times is \<open>NaN\<close> as soon
  as one of them is; of a difference that is a number, \<open>sort\<close> uses the sign only.
\<close>

definition getTime :: "(jsval \<Rightarrow> int option) \<Rightarrow> obj \<Rightarrow> int option" where
  "getTime tm r = tm (get_prop r ''timestamp'')"

definition compare_newest :: "(jsval \<Rightarrow> int option) \<Rightarrow> obj \<Rightarrow> obj \<Rightarrow> int option" where
  "compare_newest tm a b =
    (case getTime tm b of
       None \<Rightarrow> None
     | Some tb \<Rightarrow> (case getTime tm a of None \<Rightarrow> None | Some ta \<Rightarrow> Some (tb - ta)))"

text \<open>
  \<open>Array.prototype.sort(comparefn)\<close>. ECMAScript determines the result only when
  \<open>comparefn\<close> is a consistent comparator for the elements of the array: every call returns
  a number that is not \<open>NaN\<close>, every element equals itself, equality is symmetric, and
  equality, less and greater are transitive. The result is then the stable sort: \<open>a\<close> comes
  before \<open>b\<close> when \<open>comparefn(a, b) < 0\<close>, and elements that compare equal keep their order.
  For any other comparator the order is implementation-defined: whatever the engine
  (the parameter \<open>engine\<close>) makes of the array. The elements here are records, never
  \<open>undefined\<close>, so every element goes through the comparator.
\<close>

definition comes_before :: "('a \<Rightarrow> 'a \<Rightarrow> int option) \<Rightarrow> 'a \<Rightarrow> 'a \<Rightarrow> bool" where
  "comes_before cmp a b = (case cmp a b of None \<Rightarrow> False | Some d \<Rightarrow> d < 0)"

definition compares_equal :: "('a \<Rightarrow> 'a \<Rightarrow> int option) \<Rightarrow> 'a \<Rightarrow> 'a \<Rightarrow> bool" where
  "compares_equal cmp a b = (cmp a b = Some 0)"

definition comes_after :: "('a \<Rightarrow> 'a \<Rightarrow> int option) \<Rightarrow> 'a \<Rightarrow> 'a \<Rightarrow> bool" where
  "comes_after cmp a b = (case cmp a b of None \<Rightarrow> False | Some d \<Rightarrow> 0 < d)"

definition consistent :: "('a \<Rightarrow> 'a \<Rightarrow> int option) \<Rightarrow> 'a list \<Rightarrow> bool" where
  "consistent cmp xs =
    (list_all (\<lambda>a. list_all (\<lambda>b. cmp a b \<noteq> None) xs) xs \<and>
     list_all (\<lambda>a. compares_equal cmp a a) xs \<and>
     list_all (\<lambda>a. list_all (\<lambda>b. compares_equal cmp a b \<longrightarrow> compares_equal cmp b a) xs) xs \<and>
     list_all (\<lambda>a. list_all (\<lambda>b. list_all (\<lambda>c.
         (compares_equal cmp a b \<and> compares_equal cmp b c \<longrightarrow> compares_equal cmp a c) \<and>
         (comes_before cmp a b \<and> comes_before cmp b c \<longrightarrow> comes_before cmp a c) \<and>
         (comes_after cmp a b \<and> comes_after cmp b c \<longrightarrow> comes_after cmp a c)) xs) xs) xs)"

text \<open>The stable sort by a comparator: each element, from the last to the first, is put
  in front of the first element of the sorted rest that it does not come after.\<close>

fun insert_by :: "('a \<Rightarrow> 'a \<Rightarrow> int option) \<Rightarrow> 'a \<Rightarrow> 'a list \<Rightarrow> 'a list" where
  "insert_by cmp x [] = [x]"
| "insert_by cmp x (y # ys) =
     (if comes_after cmp x y then y # insert_by cmp x ys else x # y # ys)"

definition array_sort ::
  "(('a \<Rightarrow> 'a \<Rightarrow> int option) \<Rightarrow> 'a list \<Rightarrow> 'a list) \<Rightarrow> ('a \<Rightarrow> 'a \<Rightarrow> int option) \<Rightarrow>
   'a list \<Rightarrow> 'a list" where
  "array_sort engine cmp xs =
    (if consistent cmp xs then foldr (insert_by cmp) xs [] else engine cmp xs)"

type_synonym sort_engine = "(obj \<Rightarrow> obj \<Rightarrow> int option) \<Rightarrow> obj list \<Rightarrow> obj list"

definition sort_newest_first ::
  "sort_engine \<Rightarrow> (jsval \<Rightarrow> int option) \<Rightarrow> obj list \<Rightarrow> obj list" where
  "sort_newest_first engine tm xs = array_sort engine (compare_newest tm) xs"

text \<open>
  The limit is an integer (the callers pass a literal or the result of \<open>parseInt\<close>) or
  \<open>None\<close> for \<open>undefined\<close> (and for \<open>NaN\<close>, which is falsy as well); \<open>0\<close> is falsy too.
  \<open>slice(0, n)\<close> with a negative \<open>n\<close> counts from the end.
\<close>

definition slice0 :: "'a list \<Rightarrow> int \<Rightarrow> 'a list" where
  "slice0 xs n =
    (if n < 0 then take (nat (int (length xs) + n)) xs else take (nat n) xs)"

definition limited :: "int option \<Rightarrow> 'a list \<Rightarrow> 'a list" where
  "limited limit xs =
    (case limit of
       None \<Rightarrow> xs
     | Some n \<Rightarrow> if n \<noteq> 0 then slice0 xs n else xs)"

definition getAgents :: "mem_storage \<Rightarrow> obj list" where
  "getAgents s = values_of (agents s)"

definition getResponseActions :: "mem_storage \<Rightarrow> obj list" where
  "getResponseActions s = values_of (responseActions s)"

definition getAlerts ::
  "sort_engine \<Rightarrow> (jsval \<Rightarrow> int option) \<Rightarrow> int option \<Rightarrow> mem_storage \<Rightarrow> obj list" where
  "getAlerts engine tm limit s =
    limited limit (sort_newest_first engine tm (values_of (alerts s)))"

definition getIncidents ::
  "sort_engine \<Rightarrow> (jsval \<Rightarrow> int option) \<Rightarrow> int option \<Rightarrow> mem_storage \<Rightarrow> obj list" where
  "getIncidents engine tm limit s =
    limited limit (sort_newest_first engine tm (values_of (incidents s)))"

definition getLogs ::
  "sort_engine \<Rightarrow> (jsval \<Rightarrow> int option) \<Rightarrow> int option \<Rightarrow> mem_storage \<Rightarrow> obj list" where
  "getLogs engine tm limit s =
    limited limit (sort_newest_first engine tm (values_of (logs s)))"

definition getLlmInsights ::
  "sort_engine \<Rightarrow> (jsval \<Rightarrow> int option) \<Rightarrow> int option \<Rightarrow> mem_storage \<Rightarrow> obj list" where
  "getLlmInsights engine tm limit s =
    limited limit (sort_newest_first engine tm (values_of (llmInsights s)))"

text \<open>The \<open>get\<close> methods are \<open>Map.get\<close>.\<close>

definition getAgent :: "nat \<Rightarrow> mem_storage \<Rightarrow> obj option" where
  "getAgent ident s = map_of (agents s) ident"

definition getAlert :: "nat \<Rightarrow> mem_storage \<Rightarrow> obj option" where
  "getAlert ident s = map_of (alerts s) ident"

definition getIncident :: "nat \<Rightarrow> mem_storage \<Rightarrow> obj option" where
  "getIncident ident s = map_of (incidents s) ident"

definition getLog :: "nat \<Rightarrow> mem_storage \<Rightarrow> obj option" where
  "getLog ident s = map_of (logs s) ident"

definition getResponseAction :: "nat \<Rightarrow> mem_storage \<Rightarrow> obj option" where
  "getResponseAction ident s = map_of (responseActions s) ident"

definition getLlmInsight :: "nat \<Rightarrow> mem_storage \<Rightarrow> obj option" where
  "getLlmInsight ident s = map_of (llmInsights s) ident"

text \<open>
  The constructor: empty tables, counter 1, then the four sample agents and the four
  sample response actions, created in this order through \<open>createAgent\<close> and
  \<open>createResponseAction\<close>.
\<close>

definition empty_storage :: mem_storage where
  "empty_storage =
    \<lparr>users = [], agents = [], alerts = [], incidents = [], logs = [],
     responseActions = [], llmInsights = [], currentId = 1\<rparr>"

definition initialAgents :: "int \<Rightarrow> obj list" where
  "initialAgents now =
    [[''name'' \<mapsto> VStr ''Network Monitor'', ''type'' \<mapsto> VStr ''network'',
      ''status'' \<mapsto> VStr ''active'', ''lastActive'' \<mapsto> VDate now, ''metadata'' \<mapsto> VObj []],
     [''name'' \<mapsto> VStr ''Log Parser'', ''type'' \<mapsto> VStr ''log'',
      ''status'' \<mapsto> VStr ''active'', ''lastActive'' \<mapsto> VDate now, ''metadata'' \<mapsto> VObj []],
     [''name'' \<mapsto> VStr ''Response Agent'', ''type'' \<mapsto> VStr ''response'',
      ''status'' \<mapsto> VStr ''warning'', ''lastActive'' \<mapsto> VDate now, ''metadata'' \<mapsto> VObj []],
     [''name'' \<mapsto> VStr ''Threat Intelligence'', ''type'' \<mapsto> VStr ''intelligence'',
      ''status'' \<mapsto> VStr ''error'', ''lastActive'' \<mapsto> VDate now, ''metadata'' \<mapsto> VObj []]]"

definition initialActions :: "int \<Rightarrow> obj list" where
  "initialActions now =
    [[''name'' \<mapsto> VStr ''Block Malicious IP'', ''trigger'' \<mapsto> VStr ''IDS Alert'',
      ''status'' \<mapsto> VStr ''enabled'', ''lastExecuted'' \<mapsto> VDate (now - 3600000),
      ''metadata'' \<mapsto> VObj []],
     [''name'' \<mapsto> VStr ''Isolate Compromised Endpoint'',
      ''trigger'' \<mapsto> VStr ''Malware Detection'',
      ''status'' \<mapsto> VStr ''enabled'', ''lastExecuted'' \<mapsto> VDate (now - 86400000),
      ''metadata'' \<mapsto> VObj []],
     [''name'' \<mapsto> VStr ''Reset Compromised Credentials'',
      ''trigger'' \<mapsto> VStr ''Brute Force Detection'',
      ''status'' \<mapsto> VStr ''disabled'', ''lastExecuted'' \<mapsto> VNull,
      ''metadata'' \<mapsto> VObj []],
     [''name'' \<mapsto> VStr ''Backup Critical Data'',
      ''trigger'' \<mapsto> VStr ''Ransomware Indicators'',
      ''status'' \<mapsto> VStr ''enabled'', ''lastExecuted'' \<mapsto> VDate (now - 172800000),
      ''metadata'' \<mapsto> VObj []]]"

definition new_MemStorage :: "int \<Rightarrow> mem_storage" where
  "new_MemStorage now =
    fold (\<lambda>action s. snd (createResponseAction action now s)) (initialActions now)
      (fold (\<lambda>agent s. snd (createAgent agent now s)) (initialAgents now) empty_storage)"

text \<open>
  The states the store can be in: what the constructor builds, and what any sequence of
  \<open>create\<close> and \<open>update\<close> calls, with any arguments, makes of it.
\<close>

inductive reachable :: "mem_storage \<Rightarrow> bool" where
  r_new: "reachable (new_MemStorage now)"
| r_createUser: "reachable s \<Longrightarrow> reachable (snd (createUser ins now s))"
| r_createAgent: "reachable s \<Longrightarrow> reachable (snd (createAgent ins now s))"
| r_createAlert: "reachable s \<Longrightarrow> reachable (snd (createAlert ins now s))"
| r_createIncident: "reachable s \<Longrightarrow> reachable (snd (createIncident ins now s))"
| r_createLog: "reachable s \<Longrightarrow> reachable (snd (createLog ins now s))"
| r_createResponseAction:
    "reachable s \<Longrightarrow> reachable (snd (createResponseAction ins now s))"
| r_createLlmInsight: "reachable s \<Longrightarrow> reachable (snd (createLlmInsight ins now s))"
| r_updateAgent: "reachable s \<Longrightarrow> reachable (snd (updateAgent ident upd s))"
| r_updateAlert: "reachable s \<Longrightarrow> reachable (snd (updateAlert ident upd s))"
| r_updateIncident: "reachable s \<Longrightarrow> reachable (snd (updateIncident ident upd s))"
| r_updateResponseAction:
    "reachable s \<Longrightarrow> reachable (snd (updateResponseAction ident upd s))"

text \<open>The identities in use: the keys of all seven tables.\<close>

definition all_ids :: "mem_storage \<Rightarrow> nat list" where
  "all_ids s =
    map fst (users s) @ map fst (agents s) @ map fst (alerts s) @ map fst (incidents s) @
    map fst (logs s) @ map fst (responseActions s) @ map fst (llmInsights s)"


text \<open>
  What a \<open>create\<close> call is claimed to do for its record: the \<open>id\<close> it returns is the
  counter's value, which no stored record of any table has; \<open>createdAt\<close> is the server
  clock; the record is stored under that identity, after which the identities of all
  stored records are still pairwise different.
\<close>

definition server_assigned ::
  "(obj \<Rightarrow> int \<Rightarrow> mem_storage \<Rightarrow> obj \<times> mem_storage) \<Rightarrow> (mem_storage \<Rightarrow> obj table) \<Rightarrow>
   obj \<Rightarrow> int \<Rightarrow> mem_storage \<Rightarrow> bool" where
  "server_assigned create tbl ins now s =
    (case create ins now s of
       (r, s') \<Rightarrow>
         get_prop r ''id'' = VNum (of_nat (currentId s)) \<and>
         get_prop r ''createdAt'' = VDate now \<and>
         currentId s \<notin> set (all_ids s) \<and>
         map_of (tbl s') (currentId s) = Some r \<and>
         currentId s \<in> set (all_ids s') \<and>
         distinct (all_ids s'))"

text \<open>The invariant behind it: identities are pairwise different and below the counter.\<close>

definition store_inv :: "mem_storage \<Rightarrow> bool" where
  "store_inv s = (distinct (all_ids s) \<and> (\<forall>i \<in> set (all_ids s). i < currentId s))"

text \<open>
  The order of a listing: newest first by the time of \<open>timestamp\<close>. A record is not older
  than another when both have a time and its own is not the smaller one. The contract the
  four sorted listings meet is stated once, for a listing function \<open>list\<close> over the stored
  values \<open>vals\<close>: without a limit the result is all stored records, newest first, records
  of equal time in their stored (insertion) order; limit \<open>0\<close> is no limit; a positive limit
  \<open>n\<close> gives the first \<open>n\<close> of that list, none of them older than a record left out.
\<close>

definition valid_times :: "(jsval \<Rightarrow> int option) \<Rightarrow> obj list \<Rightarrow> bool" where
  "valid_times tm xs = list_all (\<lambda>r. getTime tm r \<noteq> None) xs"

text \<open>The time of a record that has one.\<close>

definition time_of :: "(jsval \<Rightarrow> int option) \<Rightarrow> obj \<Rightarrow> int" where
  "time_of tm r = (case getTime tm r of None \<Rightarrow> 0 | Some t \<Rightarrow> t)"

definition not_older :: "(jsval \<Rightarrow> int option) \<Rightarrow> obj \<Rightarrow> obj \<Rightarrow> bool" where
  "not_older tm a b =
    (case getTime tm a of
       None \<Rightarrow> False
     | Some ta \<Rightarrow> (case getTime tm b of None \<Rightarrow> False | Some tb \<Rightarrow> tb \<le> ta))"

definition newest_first :: "(jsval \<Rightarrow> int option) \<Rightarrow> obj list \<Rightarrow> bool" where
  "newest_first tm xs = sorted_wrt (not_older tm) xs"

definition lists_newest_first ::
  "(jsval \<Rightarrow> int option) \<Rightarrow> (int option \<Rightarrow> obj list) \<Rightarrow> obj list \<Rightarrow> bool" where
  "lists_newest_first tm list vals =
    (newest_first tm (list None) \<and>
     mset (list None) = mset vals \<and>
     (\<forall>t. filter (\<lambda>r. getTime tm r = Some t) (list None) =
          filter (\<lambda>r. getTime tm r = Some t) vals) \<and>
     list (Some 0) = list None \<and>
     (\<forall>n. 0 < n \<longrightarrow>
        list (Some n) = take (nat n) (list None) \<and>
        int (length (list (Some n))) \<le> n \<and>
        newest_first tm (list (Some n)) \<and>
        (\<forall>a \<in> set (list (Some n)). \<forall>b \<in> set (drop (nat n) (list None)). not_older tm a b)))"

text \<open>
  The \<open>n\<close> most recent of the stored records, newest first: \<open>n\<close> of them (all when there are
  fewer), each a stored record, in newest-first order, and none older than a stored
  record that is not shown.
\<close>

definition most_recent :: "(jsval \<Rightarrow> int option) \<Rightarrow> nat \<Rightarrow> obj list \<Rightarrow> obj list \<Rightarrow> bool" where
  "most_recent tm n shown stored =
    (length shown = min n (length stored) \<and>
     mset shown \<subseteq># mset stored \<and>
     newest_first tm shown \<and>
     (\<forall>a \<in> set shown. \<forall>b \<in> set_mset (mset stored - mset shown). not_older tm a b))"

text \<open>
  Instances of the platform parameters for the examples, whose timestamps are \<open>Date\<close>s,
  absent, or the text \<open>abc\<close>: the time value of a \<open>Date\<close>, and no time for anything else;
  and an engine that leaves an array it is given as it is.
\<close>

definition date_time :: "jsval \<Rightarrow> int option" where
  "date_time v = (case v of VDate t \<Rightarrow> Some t | _ \<Rightarrow> None)"

definition example_engine :: sort_engine where
  "example_engine cmp xs = xs"

text \<open>An example store: the constructor's, then alert A with time 1, then alert B with
  time 2, then an incident.\<close>

definition example_store :: mem_storage where
  "example_store =
    snd (createIncident [''incidentKey'' \<mapsto> VStr ''INC-1000'', ''type'' \<mapsto> VStr ''malware'']
      0
      (snd (createAlert [''timestamp'' \<mapsto> VDate 2, ''title'' \<mapsto> VStr ''B''] 0
        (snd (createAlert [''timestamp'' \<mapsto> VDate 1, ''title'' \<mapsto> VStr ''A''] 0
          (new_MemStorage 0))))))"

text \<open>
  The insert types of shared/schema.ts: the table's columns without \<open>id\<close> and \<open>createdAt\<close>
  (\<open>createInsertSchema(...).omit({id, createdAt})\<close>). A patch of type \<open>Partial<Insert...>\<close>
  names properties among these only.
\<close>

definition insertAgent_fields :: "string list" where
  "insertAgent_fields = [''name'', ''type'', ''status'', ''lastActive'', ''metadata'']"

definition insertAlert_fields :: "string list" where
  "insertAlert_fields =
    [''severity'', ''title'', ''description'', ''source'', ''timestamp'', ''status'',
     ''agentId'', ''incidentId'', ''metadata'']"

definition insertIncident_fields :: "string list" where
  "insertIncident_fields =
    [''incidentKey'', ''type'', ''status'', ''source'', ''timestamp'', ''metadata'']"

definition insertResponseAction_fields :: "string list" where
  "insertResponseAction_fields =
    [''name'', ''trigger'', ''status'', ''incidentId'', ''lastExecuted'', ''metadata'']"

definition partial_of :: "string list \<Rightarrow> obj \<Rightarrow> bool" where
  "partial_of names patch = (dom patch \<subseteq> set names)"

text \<open>
  What an \<open>update\<close> of a stored record \<open>old\<close> with \<open>patch\<close> is claimed to do: it returns a
  record \<open>new\<close> in which every property the patch does not name is as in \<open>old\<close> and every
  property it names has the patch's value; for a patch of the declared type, \<open>id\<close> and
  \<open>createdAt\<close> are therefore as in \<open>old\<close>; \<open>new\<close> replaces \<open>old\<close> under the same key, at the
  same position, every other record of the table and everything else in the store (given
  as \<open>rest\<close>: the store with this table blanked) is untouched.
\<close>

definition update_frame ::
  "(nat \<Rightarrow> obj \<Rightarrow> mem_storage \<Rightarrow> obj option \<times> mem_storage) \<Rightarrow> (mem_storage \<Rightarrow> obj table) \<Rightarrow>
   (mem_storage \<Rightarrow> mem_storage) \<Rightarrow> string list \<Rightarrow> nat \<Rightarrow> obj \<Rightarrow> obj \<Rightarrow> mem_storage \<Rightarrow> bool" where
  "update_frame update tbl rest names i old patch s =
    (case update i patch s of
       (None, s') \<Rightarrow> False
     | (Some new, s') \<Rightarrow>
         (\<forall>k. patch k = None \<longrightarrow> new k = old k) \<and>
         (\<forall>k v. patch k = Some v \<longrightarrow> new k = Some v) \<and>
         (partial_of names patch \<longrightarrow>
            get_prop new ''id'' = get_prop old ''id'' \<and>
            get_prop new ''createdAt'' = get_prop old ''createdAt'') \<and>
         map_of (tbl s') = (map_of (tbl s))(i \<mapsto> new) \<and>
         map fst (tbl s') = map fst (tbl s) \<and>
         rest s' = rest s)"

section \<open>Calls that may throw\<close>

text \<open>
  The result of calling into a library or service the repository does not contain (the
  database driver, the Redis client, the OpenAI client, \<open>JSON.parse\<close>, \<open>spawn\<close>): the call
  returns a value or throws (a rejected promise is a throw at its \<open>await\<close>). What such a
  call does is a parameter of the function that makes it.
\<close>

datatype 'a outcome = Throws | Returns 'a

text \<open>
  Member access \<open>v.k\<close> on an arbitrary value: a \<open>TypeError\<close> on \<open>null\<close> and \<open>undefined\<close>, the
  property on an object, \<open>undefined\<close> on anything else (the names read in this program,
  such as \<open>type\<close> or \<open>severity\<close>, are not built-in properties of strings, numbers or
  arrays). A \<open>VObj\<close> lists each property once.
\<close>

definition field :: "(string \<times> jsval) list \<Rightarrow> string \<Rightarrow> jsval" where
  "field kvs k = (case map_of kvs k of None \<Rightarrow> VUndefined | Some v \<Rightarrow> v)"

fun member :: "jsval \<Rightarrow> string \<Rightarrow> jsval outcome" where
  "member VUndefined k = Throws"
| "member VNull k = Throws"
| "member (VObj kvs) k = Returns (field kvs k)"
| "member v k = Returns VUndefined"

text \<open>Whether a member access throws depends on the value only, not on the name: once
  one access to a value has returned, the later ones return too, and \<open>read\<close> is what they
  give.\<close>

definition read :: "jsval \<Rightarrow> string \<Rightarrow> jsval" where
  "read v k = (case member v k of Throws \<Rightarrow> VUndefined | Returns x \<Rightarrow> x)"

section \<open>The external classifier: analyzeThreatWithLLM\<close>

text \<open>Source: server/services/llm.ts, lines 23 to 60.\<close>

text \<open>
  \<open>analyzeThreatWithLLM(text)\<close>. The request \<open>openai.chat.completions.create\<close> throws
  (timeout, quota, no network) or returns a response, of which the function reads
  \<open>response.choices[0].message.content\<close>: the response is the list of the contents of its
  choices' messages, \<open>None\<close> for a \<open>null\<close> content. \<open>JSON.parse\<close> (parameter \<open>parse\<close>) is
  applied to the content converted to a string, \<open>null\<close> giving the text \<open>null\<close>.
  \<open>Math.max(0, Math.min(1, x))\<close> converts \<open>x\<close> with the platform's \<open>ToNumber\<close> (parameter
  \<open>toNumber\<close>, \<open>None\<close> for \<open>NaN\<close>) and is \<open>NaN\<close> when that is.
\<close>

record threat_analysis =
  severity :: jsval
  analysis :: jsval
  recommendation :: jsval
  confidence :: "rat option"

definition content_text :: "string option \<Rightarrow> string" where
  "content_text c = (case c of None \<Rightarrow> ''null'' | Some s \<Rightarrow> s)"

definition clamp01 :: "(jsval \<Rightarrow> rat option) \<Rightarrow> jsval \<Rightarrow> rat option" where
  "clamp01 toNumber x = (case toNumber x of None \<Rightarrow> None | Some n \<Rightarrow> Some (max 0 (min 1 n)))"

text \<open>The \<open>try\<close> block.\<close>

definition analysis_of_response ::
  "(string \<Rightarrow> jsval outcome) \<Rightarrow> (jsval \<Rightarrow> rat option) \<Rightarrow> string option list outcome \<Rightarrow>
   threat_analysis outcome" where
  "analysis_of_response parse toNumber response =
    (case response of
       Throws \<Rightarrow> Throws
     | Returns choices \<Rightarrow>
         (case choices of
            [] \<Rightarrow> Throws
          | content # _ \<Rightarrow>
              (case parse (content_text content) of
                 Throws \<Rightarrow> Throws
               | Returns result \<Rightarrow>
                   (case member result ''severity'' of
                      Throws \<Rightarrow> Throws
                    | Returns sev \<Rightarrow>
                        Returns
                          \<lparr>severity = js_or sev (VStr ''medium''),
                           analysis = js_or (read result ''analysis'') (VStr ''No analysis provided''),
                           recommendation =
                             js_or (read result ''recommendation'')
                               (VStr ''No recommendation provided''),
                           confidence =
                             clamp01 toNumber (js_or (read result ''confidence'') (VNum (1 / 2)))\<rparr>))))"

text \<open>The object the \<open>catch\<close> block returns.\<close>

definition fallback_analysis :: threat_analysis where
  "fallback_analysis =
    \<lparr>severity = VStr ''medium'',
     analysis = VStr ''Failed to analyze threat with LLM. API may be unavailable.'',
     recommendation = VStr ''Please check API credentials and try again.'',
     confidence = Some 0\<rparr>"

definition analyzeThreatWithLLM ::
  "(string \<Rightarrow> jsval outcome) \<Rightarrow> (jsval \<Rightarrow> rat option) \<Rightarrow> string option list outcome \<Rightarrow>
   threat_analysis" where
  "analyzeThreatWithLLM parse toNumber response =
    (case analysis_of_response parse toNumber response of
       Throws \<Rightarrow> fallback_analysis
     | Returns r \<Rightarrow> r)"

text \<open>
  The ways the classifier call can fail: the request throws, the response has no choice,
  or the content of the first choice is not JSON text (\<open>JSON.parse\<close> throws) or is the JSON
  \<open>null\<close> (reading \<open>result.severity\<close> throws).
\<close>

definition classifier_fails ::
  "(string \<Rightarrow> jsval outcome) \<Rightarrow> string option list outcome \<Rightarrow> bool" where
  "classifier_fails parse response =
    (case response of
       Throws \<Rightarrow> True
     | Returns [] \<Rightarrow> True
     | Returns (content # _) \<Rightarrow>
         parse (content_text content) = Throws \<or>
         parse (content_text content) = Returns VNull)"

text \<open>Instances of the parameters for the examples: \<open>JSON.parse\<close> on six JSON texts
  (every other text used in an example is not JSON), and \<open>ToNumber\<close> on numbers.\<close>

definition example_parse :: "string \<Rightarrow> jsval outcome" where
  \<open>example_parse s =
    (if s = ''null'' then Returns VNull
     else if s = ''{}'' then Returns (VObj [])
     else if s = ''{"type":"metric","value":3}'' then
       Returns (VObj [(''type'', VStr ''metric''), (''value'', VNum 3)])
     else if s = ''{"type":"log","level":"warning","message":"disk full"}'' then
       Returns (VObj [(''type'', VStr ''log''), (''level'', VStr ''warning''),
                      (''message'', VStr ''disk full'')])
     else if s = ''{"type":"alert","severity":"critical","title":"X","description":"Y"}'' then
       Returns (VObj [(''type'', VStr ''alert''), (''severity'', VStr ''critical''),
                      (''title'', VStr ''X''), (''description'', VStr ''Y'')])
     else if s = ''{"type":"incident","incidentType":"malware"}'' then
       Returns (VObj [(''type'', VStr ''incident''), (''incidentType'', VStr ''malware'')])
     else Throws)\<close>

definition example_toNumber :: "jsval \<Rightarrow> rat option" where
  "example_toNumber v = (case v of VNum n \<Rightarrow> Some n | _ \<Rightarrow> None)"

section \<open>The Context Cache: classes MemoryStore and RedisMCP\<close>

text \<open>Source: the redisMcp module, the second part of unnamed/part_005 (from line 212).\<close>

text \<open>
  \<open>String.prototype.replace(p, "")\<close> with a string pattern removes the first occurrence of
  \<open>p\<close>; \<open>startsWith\<close>.
\<close>

definition starts_with :: "string \<Rightarrow> string \<Rightarrow> bool" where
  "starts_with s p = (take (length p) s = p)"

fun remove_first :: "string \<Rightarrow> string \<Rightarrow> string" where
  "remove_first p [] = []"
| "remove_first p (c # cs) =
     (if starts_with (c # cs) p then drop (length p) (c # cs) else c # remove_first p cs)"

text \<open>
  The in-process fallback, class \<open>MemoryStore\<close>: a map of strings, the handlers registered
  per event, and the deletions that \<open>expire\<close> has deferred with \<open>setTimeout\<close> (key and delay
  in seconds). The only event handlers this program registers are the closures
  \<open>RedisMCP.subscribe\<close> creates, each determined by its channel and by the caller's
  callback, which is identified by a number.
\<close>

datatype event_callback = ChannelHandler string nat

record memory_store =
  store :: "(string \<times> string) list"
  eventHandlers :: "(string \<times> event_callback list) list"
  timers :: "(string \<times> nat) list"

definition new_MemoryStore :: memory_store where
  "new_MemoryStore = \<lparr>store = [], eventHandlers = [], timers = []\<rparr>"

text \<open>\<open>get\<close> is \<open>this.store.get(key) || null\<close>: absent and empty values both read as \<open>null\<close>.\<close>

definition ms_get :: "memory_store \<Rightarrow> string \<Rightarrow> string option" where
  "ms_get ms key =
    (case map_of (store ms) key of
       None \<Rightarrow> None
     | Some v \<Rightarrow> if v = [] then None else Some v)"

definition ms_set :: "memory_store \<Rightarrow> string \<Rightarrow> string \<Rightarrow> memory_store" where
  "ms_set ms key v = ms\<lparr>store := AList.update key v (store ms)\<rparr>"

definition ms_expire :: "memory_store \<Rightarrow> string \<Rightarrow> nat \<Rightarrow> memory_store" where
  "ms_expire ms key seconds = ms\<lparr>timers := timers ms @ [(key, seconds)]\<rparr>"

text \<open>A deferred deletion runs: \<open>this.store.delete(key)\<close>.\<close>

definition ms_timeout :: "memory_store \<Rightarrow> string \<times> nat \<Rightarrow> memory_store" where
  "ms_timeout ms timer =
    ms\<lparr>store := AList.delete (fst timer) (store ms), timers := remove1 timer (timers ms)\<rparr>"

definition ms_keys :: "memory_store \<Rightarrow> string \<Rightarrow> string list" where
  "ms_keys ms pattern =
    (let prefix = remove_first ''*'' pattern
     in filter (\<lambda>key. starts_with key prefix) (map fst (store ms)))"

definition ms_on :: "memory_store \<Rightarrow> string \<Rightarrow> event_callback \<Rightarrow> memory_store" where
  "ms_on ms event callback =
    (let handlers = (case map_of (eventHandlers ms) event of None \<Rightarrow> [] | Some hs \<Rightarrow> hs)
     in ms\<lparr>eventHandlers := AList.update event (handlers @ [callback]) (eventHandlers ms)\<rparr>)"

text \<open>
  A handler called with \<open>(chan, message)\<close>: when \<open>chan\<close> is its channel it parses the
  message and calls the caller's callback with the result; a message that does not parse,
  or a callback that throws, is caught and logged. What is observable is the callback
  invoked and its argument.
\<close>

definition run_handler ::
  "(string \<Rightarrow> jsval outcome) \<Rightarrow> string \<Rightarrow> string \<Rightarrow> event_callback \<Rightarrow> (nat \<times> jsval) list" where
  "run_handler parse chan message h =
    (case h of
       ChannelHandler channel callback \<Rightarrow>
         if chan = channel then
           (case parse message of Throws \<Rightarrow> [] | Returns parsedMessage \<Rightarrow> [(callback, parsedMessage)])
         else [])"

text \<open>\<open>publish\<close> calls every handler of the event \<open>message\<close>, in order, in-process.\<close>

definition ms_publish ::
  "(string \<Rightarrow> jsval outcome) \<Rightarrow> memory_store \<Rightarrow> string \<Rightarrow> string \<Rightarrow> (nat \<times> jsval) list" where
  "ms_publish parse ms channel message =
    (let handlers = (case map_of (eventHandlers ms) ''message'' of None \<Rightarrow> [] | Some hs \<Rightarrow> hs)
     in concat (map (run_handler parse channel message) handlers))"

text \<open>
  The networked client is the ioredis library talking to a server: what its commands
  answer is the parameter \<open>net\<close> (the commands whose answer the program reads). Its
  locally registered \<open>message\<close> handlers are part of the client.
\<close>

record net =
  net_get :: "string \<Rightarrow> string option outcome"
  net_keys :: "string \<Rightarrow> string list outcome"
  net_subscribe :: "string \<Rightarrow> unit outcome"
  net_ping :: "string outcome"

datatype client = RedisClient "event_callback list" | MemoryClient memory_store

record redis_mcp =
  client :: client
  connected :: bool
  useMemoryFallback :: bool

definition contextPrefix :: string where
  "contextPrefix = ''mcp:context:''"

definition agentStatusPrefix :: string where
  "agentStatusPrefix = ''mcp:agent:''"

text \<open>The switch to the fallback, written three times in the constructor.\<close>

definition use_fallback :: "redis_mcp \<Rightarrow> redis_mcp" where
  "use_fallback r =
    r\<lparr>useMemoryFallback := True, client := MemoryClient new_MemoryStore, connected := True\<rparr>"

text \<open>
  The constructor: the fallback at once when \<open>USE_MEMORY_FALLBACK\<close> is set or when
  constructing the client throws; otherwise a networked client, not yet connected. The
  client's events and its retry strategy come afterwards: \<open>connect\<close> sets \<open>connected\<close>,
  \<open>error\<close> and the eleventh retry switch to the fallback; earlier retries wait
  \<open>min(times * 50, 2000)\<close> milliseconds.
\<close>

definition new_RedisMCP :: "bool \<Rightarrow> bool \<Rightarrow> redis_mcp" where
  "new_RedisMCP useFallback constructor_throws =
    (let r = \<lparr>client = RedisClient [], connected = False, useMemoryFallback = False\<rparr>
     in if useFallback \<or> constructor_throws then use_fallback r else r)"

definition on_connect :: "redis_mcp \<Rightarrow> redis_mcp" where
  "on_connect r = r\<lparr>connected := True\<rparr>"

definition on_redis_error :: "redis_mcp \<Rightarrow> redis_mcp" where
  "on_redis_error r = (if \<not> useMemoryFallback r then use_fallback r else r)"

definition retryStrategy :: "nat \<Rightarrow> redis_mcp \<Rightarrow> nat option \<times> redis_mcp" where
  "retryStrategy attempt r =
    (if attempt > 10 then (None, if \<not> useMemoryFallback r then use_fallback r else r)
     else (Some (min (attempt * 50) 2000), r))"

text \<open>The client's commands, on either client. A command of the networked client that
  answers nothing the program reads leaves the model's state as it is.\<close>

definition client_get :: "net \<Rightarrow> client \<Rightarrow> string \<Rightarrow> string option outcome" where
  "client_get nt c key =
    (case c of MemoryClient ms \<Rightarrow> Returns (ms_get ms key) | RedisClient hs \<Rightarrow> net_get nt key)"

definition client_keys :: "net \<Rightarrow> client \<Rightarrow> string \<Rightarrow> string list outcome" where
  "client_keys nt c pattern =
    (case c of
       MemoryClient ms \<Rightarrow> Returns (ms_keys ms pattern)
     | RedisClient hs \<Rightarrow> net_keys nt pattern)"

definition client_set :: "client \<Rightarrow> string \<Rightarrow> string \<Rightarrow> client" where
  "client_set c key v =
    (case c of MemoryClient ms \<Rightarrow> MemoryClient (ms_set ms key v) | RedisClient hs \<Rightarrow> c)"

definition client_expire :: "client \<Rightarrow> string \<Rightarrow> nat \<Rightarrow> client" where
  "client_expire c key seconds =
    (case c of
       MemoryClient ms \<Rightarrow> MemoryClient (ms_expire ms key seconds)
     | RedisClient hs \<Rightarrow> c)"

definition client_on_message :: "client \<Rightarrow> event_callback \<Rightarrow> client" where
  "client_on_message c h =
    (case c of
       MemoryClient ms \<Rightarrow> MemoryClient (ms_on ms ''message'' h)
     | RedisClient hs \<Rightarrow> RedisClient (hs @ [h]))"

text \<open>
  The operations of \<open>RedisMCP\<close>. Each starts with \<open>if (!this.connected)\<close> and returns at
  once; the rest runs in a \<open>try\<close> whose \<open>catch\<close> logs and returns the same empty result.
  \<open>JSON.stringify\<close> and \<open>JSON.parse\<close> are the parameters \<open>stringify\<close> and \<open>parse\<close>.
\<close>

definition isConnected :: "net \<Rightarrow> redis_mcp \<Rightarrow> bool" where
  "isConnected nt r =
    (if \<not> connected r then False
     else (case client r of
             MemoryClient ms \<Rightarrow> True
           | RedisClient hs \<Rightarrow> (case net_ping nt of Throws \<Rightarrow> False | Returns pong \<Rightarrow> True)))"

definition storeContext ::
  "(jsval \<Rightarrow> string outcome) \<Rightarrow> string \<Rightarrow> jsval \<Rightarrow> redis_mcp \<Rightarrow> redis_mcp" where
  "storeContext stringify ty data r =
    (if \<not> connected r then r
     else (case stringify data of
             Throws \<Rightarrow> r
           | Returns text \<Rightarrow>
               (let key = contextPrefix @ ty
                in r\<lparr>client := client_expire (client_set (client r) key text) key 86400\<rparr>)))"

definition getContext ::
  "net \<Rightarrow> (string \<Rightarrow> jsval outcome) \<Rightarrow> string \<Rightarrow> redis_mcp \<Rightarrow> jsval" where
  "getContext nt parse ty r =
    (if \<not> connected r then VNull
     else (case client_get nt (client r) (contextPrefix @ ty) of
             Throws \<Rightarrow> VNull
           | Returns None \<Rightarrow> VNull
           | Returns (Some data) \<Rightarrow>
               if data = [] then VNull
               else (case parse data of Throws \<Rightarrow> VNull | Returns v \<Rightarrow> v)))"

definition updateAgentStatus :: "string \<Rightarrow> string \<Rightarrow> redis_mcp \<Rightarrow> redis_mcp" where
  "updateAgentStatus agentId status r =
    (if \<not> connected r then r
     else r\<lparr>client := client_set (client r) (agentStatusPrefix @ agentId) status\<rparr>)"

definition getAgentStatus :: "net \<Rightarrow> string \<Rightarrow> redis_mcp \<Rightarrow> string option" where
  "getAgentStatus nt agentId r =
    (if \<not> connected r then None
     else (case client_get nt (client r) (agentStatusPrefix @ agentId) of
             Throws \<Rightarrow> None
           | Returns v \<Rightarrow> v))"

text \<open>\<open>publish\<close> returns nothing; what it brings about in-process is the list of callbacks
  invoked with their arguments.\<close>

definition publish ::
  "(jsval \<Rightarrow> string outcome) \<Rightarrow> (string \<Rightarrow> jsval outcome) \<Rightarrow> string \<Rightarrow> jsval \<Rightarrow> redis_mcp \<Rightarrow>
   (nat \<times> jsval) list" where
  "publish stringify parse channel message r =
    (if \<not> connected r then []
     else (case stringify message of
             Throws \<Rightarrow> []
           | Returns text \<Rightarrow>
               (case client r of
                  MemoryClient ms \<Rightarrow> ms_publish parse ms channel text
                | RedisClient hs \<Rightarrow> [])))"

definition subscribe :: "net \<Rightarrow> string \<Rightarrow> nat \<Rightarrow> redis_mcp \<Rightarrow> redis_mcp" where
  "subscribe nt channel callback r =
    (if \<not> connected r then r
     else (case (case client r of
                   MemoryClient ms \<Rightarrow> Returns ()
                 | RedisClient hs \<Rightarrow> net_subscribe nt channel) of
             Throws \<Rightarrow> r
           | Returns u \<Rightarrow>
               r\<lparr>client := client_on_message (client r) (ChannelHandler channel callback)\<rparr>))"

text \<open>
  \<open>getAllContexts\<close> and \<open>getAllAgentStatuses\<close> fill a plain object, \<open>result[name] = value\<close>,
  and return it: the result is that object's own properties, a map from names to values
  (the order in which an object enumerates them is not part of it). An assignment to the
  name \<open>__proto__\<close> reaches the setter of \<open>Object.prototype\<close> and adds no property (the
  keys of one answer are distinct and begin with the prefix, so a name is assigned at most
  once in a call).
\<close>

definition assign :: "(string \<Rightarrow> 'a option) \<Rightarrow> string \<Rightarrow> 'a \<Rightarrow> (string \<Rightarrow> 'a option)" where
  "assign result name v = (if name = ''__proto__'' then result else result(name \<mapsto> v))"

text \<open>The loop over the keys found: a throw anywhere abandons the whole result.\<close>

fun collect ::
  "(string \<Rightarrow> string option outcome) \<Rightarrow> (string \<Rightarrow> 'a outcome) \<Rightarrow> string \<Rightarrow> string list \<Rightarrow>
   (string \<Rightarrow> 'a option) \<Rightarrow> (string \<Rightarrow> 'a option) outcome" where
  "collect get conv prefix [] result = Returns result"
| "collect get conv prefix (key # keys) result =
     (case get key of
        Throws \<Rightarrow> Throws
      | Returns None \<Rightarrow> collect get conv prefix keys result
      | Returns (Some v) \<Rightarrow>
          if v = [] then collect get conv prefix keys result
          else (case conv v of
                  Throws \<Rightarrow> Throws
                | Returns x \<Rightarrow>
                    collect get conv prefix keys
                      (assign result (remove_first prefix key) x)))"

definition getAllContexts ::
  "net \<Rightarrow> (string \<Rightarrow> jsval outcome) \<Rightarrow> redis_mcp \<Rightarrow> (string \<Rightarrow> jsval option)" where
  "getAllContexts nt parse r =
    (if \<not> connected r then Map.empty
     else (case client_keys nt (client r) (contextPrefix @ ''*'') of
             Throws \<Rightarrow> Map.empty
           | Returns keys \<Rightarrow>
               (case collect (client_get nt (client r)) parse contextPrefix keys Map.empty of
                  Throws \<Rightarrow> Map.empty
                | Returns result \<Rightarrow> result)))"

definition getAllAgentStatuses :: "net \<Rightarrow> redis_mcp \<Rightarrow> (string \<Rightarrow> string option)" where
  "getAllAgentStatuses nt r =
    (if \<not> connected r then Map.empty
     else (case client_keys nt (client r) (agentStatusPrefix @ ''*'') of
             Throws \<Rightarrow> Map.empty
           | Returns keys \<Rightarrow>
               (case collect (client_get nt (client r)) Returns agentStatusPrefix keys Map.empty of
                  Throws \<Rightarrow> Map.empty
                | Returns result \<Rightarrow> result)))"

text \<open>
  What the claim about a cache without a connection says of one state \<open>r\<close>: every
  operation, with any arguments and whatever the network would answer, returns its empty
  result (\<open>null\<close>, the empty object, nothing invoked) and leaves the cache as it is.
\<close>

definition unavailable :: "redis_mcp \<Rightarrow> bool" where
  "unavailable r =
    ((\<forall>stringify ty data. storeContext stringify ty data r = r) \<and>
     (\<forall>nt parse ty. getContext nt parse ty r = VNull) \<and>
     (\<forall>agentId status. updateAgentStatus agentId status r = r) \<and>
     (\<forall>nt agentId. getAgentStatus nt agentId r = None) \<and>
     (\<forall>stringify parse channel message. publish stringify parse channel message r = []) \<and>
     (\<forall>nt channel callback. subscribe nt channel callback r = r) \<and>
     (\<forall>nt parse. getAllContexts nt parse r = Map.empty) \<and>
     (\<forall>nt. getAllAgentStatuses nt r = Map.empty))"

text \<open>Instances for the examples: a network that answers every command, and a
  \<open>JSON.stringify\<close> that gives a fixed text.\<close>

definition example_net :: net where
  "example_net =
    \<lparr>net_get = (\<lambda>key. Returns (Some ''active'')),
     net_keys = (\<lambda>pattern. Returns [''mcp:agent:1'']),
     net_subscribe = (\<lambda>channel. Returns ()),
     net_ping = Returns ''PONG''\<rparr>"

definition example_stringify :: "jsval \<Rightarrow> string outcome" where
  "example_stringify v = Returns ''{}''"

section \<open>The Agent Supervisor: class PythonAgent\<close>

text \<open>Source: the pythonRunner module, the second part of unnamed/part_008 (from line 121).\<close>

text \<open>\<open>Number.prototype.toString()\<close> of a non-negative integer: its decimal digits.\<close>

definition digit_char :: "nat \<Rightarrow> char" where
  "digit_char d = ''0123456789'' ! d"

fun string_of_nat :: "nat \<Rightarrow> string" where
  "string_of_nat n =
    (if n < 10 then [digit_char n] else string_of_nat (n div 10) @ [digit_char (n mod 10)])"

text \<open>
  \<open>String.prototype.trim()\<close> removes white space and line terminators at both ends. A
  character here is a code unit below 256; of those, JavaScript's white space is tab, line
  feed, vertical tab, form feed, carriage return, space and the no-break space.
\<close>

definition is_space :: "char \<Rightarrow> bool" where
  "is_space c = (of_char c \<in> {9, 10, 11, 12, 13, 32, 160 :: nat})"

definition trim :: "string \<Rightarrow> string" where
  "trim s = rev (dropWhile is_space (rev (dropWhile is_space s)))"

text \<open>
  What the supervisor does to the outside: the calls it makes on the Event Store
  (\<open>storage\<close>, an \<open>IStorage\<close>) and on the Context Cache (\<open>redis\<close>), and the worker processes it
  launches (the script, and the \<open>AGENT_ID\<close> and \<open>AGENT_NAME\<close> put into the worker's
  environment).
\<close>

datatype effect =
    CreateLog obj
  | CreateAlert obj
  | CreateIncident obj
  | UpdateAgent nat obj
  | RedisUpdateAgentStatus string string
  | Spawned string string string

record python_agent =
  agentId :: nat
  agentName :: string
  pythonScript :: string
  process :: "nat option"
  isRunning :: bool

definition new_PythonAgent :: "nat \<Rightarrow> string \<Rightarrow> string \<Rightarrow> python_agent" where
  "new_PythonAgent ident name script =
    \<lparr>agentId = ident, agentName = name, pythonScript = script, process = None,
     isRunning = False\<rparr>"

text \<open>
  \<open>updateAgentStatus(status)\<close>: \<open>storage.updateAgent\<close> with the status and the clock, then
  \<open>redis.updateAgentStatus\<close>, both in one \<open>try\<close>: when the store call throws
  (\<open>store_throws\<close>) the cache call is not made. The cache call itself never throws.
\<close>

definition agent_updateAgentStatus :: "python_agent \<Rightarrow> string \<Rightarrow> int \<Rightarrow> bool \<Rightarrow> effect list" where
  "agent_updateAgentStatus a status now store_throws =
    UpdateAgent (agentId a) [''status'' \<mapsto> VStr status, ''lastActive'' \<mapsto> VDate now] #
    (if store_throws then []
     else [RedisUpdateAgentStatus (string_of_nat (agentId a)) status])"

text \<open>
  \<open>start()\<close>. \<open>spawn\<close> returns the handle of the new process or throws (parameter
  \<open>spawned\<close>). The result is the promise's value, the agent afterwards, and the effects in
  order.
\<close>

definition start ::
  "nat outcome \<Rightarrow> int \<Rightarrow> bool \<Rightarrow> python_agent \<Rightarrow> bool \<times> python_agent \<times> effect list" where
  "start spawned now store_throws a =
    (if isRunning a then (True, a, [])
     else (case spawned of
             Returns child \<Rightarrow>
               (let a' = a\<lparr>process := Some child, isRunning := True\<rparr>
                in (True, a',
                    Spawned (pythonScript a) (string_of_nat (agentId a)) (agentName a) #
                    agent_updateAgentStatus a' ''active'' now store_throws))
           | Throws \<Rightarrow>
               (let a' = a\<lparr>isRunning := False\<rparr>
                in (False, a', agent_updateAgentStatus a' ''error'' now store_throws))))"

text \<open>
  The handlers \<open>start\<close> registers on the process: \<open>close\<close> (the process has exited, with
  exit code \<open>code\<close>, \<open>None\<close> when a signal ended it) and \<open>error\<close> (it could not be
  launched or killed). Neither looks at the code.
\<close>

definition on_close ::
  "int option \<Rightarrow> int \<Rightarrow> bool \<Rightarrow> python_agent \<Rightarrow> python_agent \<times> effect list" where
  "on_close code now store_throws a =
    (let a' = a\<lparr>isRunning := False\<rparr>
     in (a', agent_updateAgentStatus a' ''error'' now store_throws))"

definition on_error :: "int \<Rightarrow> bool \<Rightarrow> python_agent \<Rightarrow> python_agent \<times> effect list" where
  "on_error now store_throws a =
    (let a' = a\<lparr>isRunning := False\<rparr>
     in (a', agent_updateAgentStatus a' ''error'' now store_throws))"

text \<open>The statuses the effects record, in the store and in the cache.\<close>

definition store_statuses :: "effect list \<Rightarrow> jsval list" where
  "store_statuses es = concat (map (\<lambda>e. case e of UpdateAgent i upd \<Rightarrow> [get_prop upd ''status''] | _ \<Rightarrow> []) es)"

definition cache_statuses :: "effect list \<Rightarrow> string list" where
  "cache_statuses es = concat (map (\<lambda>e. case e of RedisUpdateAgentStatus i status \<Rightarrow> [status] | _ \<Rightarrow> []) es)"

definition spawns :: "effect list \<Rightarrow> effect list" where
  "spawns es = filter (\<lambda>e. case e of Spawned script i name \<Rightarrow> True | _ \<Rightarrow> False) es"

text \<open>
  \<open>handleAgentOutput(output)\<close>, called with each chunk the worker writes to its standard
  output. \<open>JSON.parse\<close> is the parameter \<open>parse\<close>; \<open>rnd\<close> is the value of
  \<open>Math.floor(1000 + Math.random() * 9000)\<close>. The inner \<open>catch\<close> takes what \<open>JSON.parse\<close>
  or the member access throws, and logs it. A store call that throws is caught and logged
  too, and nothing follows it: the result is the store call made, if any.
\<close>

definition handleAgentOutput ::
  "(string \<Rightarrow> jsval outcome) \<Rightarrow> string \<Rightarrow> int \<Rightarrow> nat \<Rightarrow> string \<Rightarrow> effect list" where
  "handleAgentOutput parse name now rnd output =
    (if trim output = [] then []
     else if starts_with (trim output) ''{'' then
       (case parse output of
          Throws \<Rightarrow> []
        | Returns data \<Rightarrow>
            (case member data ''type'' of
               Throws \<Rightarrow> []
             | Returns ty \<Rightarrow>
                 if ty = VStr ''log'' then
                   [CreateLog
                     [''level'' \<mapsto> js_or (read data ''level'') (VStr ''info''),
                      ''message'' \<mapsto> read data ''message'',
                      ''source'' \<mapsto> VStr name,
                      ''timestamp'' \<mapsto> VDate now,
                      ''metadata'' \<mapsto> js_or (read data ''metadata'') (VObj [])]]
                 else if ty = VStr ''alert'' then
                   [CreateAlert
                     [''severity'' \<mapsto> js_or (read data ''severity'') (VStr ''medium''),
                      ''title'' \<mapsto> read data ''title'',
                      ''description'' \<mapsto> read data ''description'',
                      ''source'' \<mapsto> VStr name,
                      ''timestamp'' \<mapsto> VDate now,
                      ''status'' \<mapsto> VStr ''new'',
                      ''metadata'' \<mapsto> js_or (read data ''metadata'') (VObj [])]]
                 else if ty = VStr ''incident'' then
                   [CreateIncident
                     [''incidentId'' \<mapsto> VStr (''INC-'' @ string_of_nat rnd),
                      ''type'' \<mapsto> read data ''incidentType'',
                      ''status'' \<mapsto> VStr ''open'',
                      ''source'' \<mapsto> VStr name,
                      ''timestamp'' \<mapsto> VDate now,
                      ''metadata'' \<mapsto> js_or (read data ''metadata'') (VObj [])]]
                 else []))
     else
       [CreateLog
         [''level'' \<mapsto> VStr ''info'',
          ''message'' \<mapsto> VStr output,
          ''source'' \<mapsto> VStr name,
          ''timestamp'' \<mapsto> VDate now,
          ''metadata'' \<mapsto> VObj []]])"

text \<open>The log record the claim expects for a line that is not a recognised structured
  event: the line verbatim, at level \<open>info\<close>, attributed to the agent.\<close>

definition verbatim_info_log :: "string \<Rightarrow> int \<Rightarrow> string \<Rightarrow> effect" where
  "verbatim_info_log name now output =
    CreateLog
      [''level'' \<mapsto> VStr ''info'',
       ''message'' \<mapsto> VStr output,
       ''source'' \<mapsto> VStr name,
       ''timestamp'' \<mapsto> VDate now,
       ''metadata'' \<mapsto> VObj []]"

section \<open>The Realtime Hub: sendInitialData\<close>

text \<open>Source: server/routes.ts, lines 39 to 78.\<close>

text \<open>
  \<open>sendInitialData\<close> reads the store through the \<open>IStorage\<close> interface; with the
  database behind it each read returns a list of records or throws. The reads are the
  parameter \<open>st\<close>; \<open>mem_reads\<close> is the in-memory store behind the same interface.
\<close>

record storage_reads =
  st_getAgents :: "obj list outcome"
  st_getAlerts :: "int option \<Rightarrow> obj list outcome"
  st_getIncidents :: "int option \<Rightarrow> obj list outcome"
  st_getLogs :: "int option \<Rightarrow> obj list outcome"
  st_getResponseActions :: "obj list outcome"
  st_getLlmInsights :: "int option \<Rightarrow> obj list outcome"

definition mem_reads :: "sort_engine \<Rightarrow> (jsval \<Rightarrow> int option) \<Rightarrow> mem_storage \<Rightarrow> storage_reads" where
  "mem_reads engine tm s =
    \<lparr>st_getAgents = Returns (getAgents s),
     st_getAlerts = (\<lambda>limit. Returns (getAlerts engine tm limit s)),
     st_getIncidents = (\<lambda>limit. Returns (getIncidents engine tm limit s)),
     st_getLogs = (\<lambda>limit. Returns (getLogs engine tm limit s)),
     st_getResponseActions = Returns (getResponseActions s),
     st_getLlmInsights = (\<lambda>limit. Returns (getLlmInsights engine tm limit s))\<rparr>"

text \<open>The messages \<open>sendInitialData\<close> passes to \<open>ws.send\<close>: \<open>initial_data\<close> with its data, or
  \<open>error\<close> with its text.\<close>

record initial_data =
  d_agents :: "obj list"
  d_alerts :: "obj list"
  d_incidents :: "obj list"
  d_logs :: "obj list"
  d_responseActions :: "obj list"
  d_llmInsights :: "obj list"
  d_mcpStatus :: "(string \<times> jsval) list"
  d_llmStatus :: "(string \<times> jsval) list"

datatype ws_message = InitialData initial_data | ErrorMessage string

text \<open>The two status objects are literals; only \<open>lastUpdated\<close> is computed, from the clock
  (\<open>new Date().toISOString()\<close>, the parameter \<open>now_iso\<close>).\<close>

definition mcpStatus :: "string \<Rightarrow> (string \<times> jsval) list" where
  "mcpStatus now_iso =
    [(''brokerStatus'', VStr ''healthy''),
     (''redisCache'', VStr ''connected''),
     (''cacheSize'', VStr ''245 MB''),
     (''updateFrequency'', VStr ''30 seconds''),
     (''lastUpdated'', VStr now_iso)]"

definition llmStatus :: "(string \<times> jsval) list" where
  "llmStatus =
    [(''model'', VStr ''GPT-4o''),
     (''apiStatus'', VStr ''operational''),
     (''contextSize'', VStr ''16K tokens''),
     (''queriesToday'', VNum 142)]"

text \<open>Sequencing of calls that may throw: the first throw leaves the \<open>try\<close> block.\<close>

definition and_then :: "'a outcome \<Rightarrow> ('a \<Rightarrow> 'b outcome) \<Rightarrow> 'b outcome" where
  "and_then x f = (case x of Throws \<Rightarrow> Throws | Returns v \<Rightarrow> f v)"

text \<open>The \<open>try\<close> block up to the message it is about to send.\<close>

definition load_initial_data :: "storage_reads \<Rightarrow> string \<Rightarrow> initial_data outcome" where
  "load_initial_data st now_iso =
    and_then (st_getAgents st) (\<lambda>the_agents.
    and_then (st_getAlerts st (Some 10)) (\<lambda>the_alerts.
    and_then (st_getIncidents st (Some 10)) (\<lambda>the_incidents.
    and_then (st_getLogs st (Some 20)) (\<lambda>the_logs.
    and_then (st_getResponseActions st) (\<lambda>the_actions.
    and_then (st_getLlmInsights st (Some 10)) (\<lambda>the_insights.
      Returns
        \<lparr>d_agents = the_agents, d_alerts = the_alerts, d_incidents = the_incidents, d_logs = the_logs,
         d_responseActions = the_actions, d_llmInsights = the_insights,
         d_mcpStatus = mcpStatus now_iso, d_llmStatus = llmStatus\<rparr>))))))"

text \<open>\<open>sendInitialData\<close>: the messages sent on the new connection.\<close>

definition sendInitialData :: "storage_reads \<Rightarrow> string \<Rightarrow> ws_message list" where
  "sendInitialData st now_iso =
    (case load_initial_data st now_iso of
       Returns d \<Rightarrow> [InitialData d]
     | Throws \<Rightarrow> [ErrorMessage ''Failed to load initial data''])"

text \<open>The entity lists a message carries: the six of a snapshot, in the order agents,
  alerts, incidents, logs, response actions, insights; none for an error message.\<close>

definition snapshot_lists ::
  "ws_message \<Rightarrow> (obj list \<times> obj list \<times> obj list \<times> obj list \<times> obj list \<times> obj list) option" where
  "snapshot_lists m =
    (case m of
       InitialData d \<Rightarrow>
         Some (d_agents d, d_alerts d, d_incidents d, d_logs d, d_responseActions d,
               d_llmInsights d)
     | ErrorMessage e \<Rightarrow> None)"

text \<open>All six reads return.\<close>

definition reads_succeed :: "storage_reads \<Rightarrow> bool" where
  "reads_succeed st =
    (st_getAgents st \<noteq> Throws \<and> st_getAlerts st (Some 10) \<noteq> Throws \<and>
     st_getIncidents st (Some 10) \<noteq> Throws \<and> st_getLogs st (Some 20) \<noteq> Throws \<and>
     st_getResponseActions st \<noteq> Throws \<and> st_getLlmInsights st (Some 10) \<noteq> Throws)"

text \<open>An example of reads in which the database fails on the alerts.\<close>

definition failing_reads :: storage_reads where
  "failing_reads =
    (mem_reads example_engine date_time example_store)\<lparr>st_getAlerts := (\<lambda>limit. Throws)\<rparr>"

section \<open>Event Store: identities\<close>

lemma keys_update_fresh:
  "k \<notin> fst ` set al \<Longrightarrow> map fst (AList.update k v al) = map fst al @ [k]"
  by (simp add: update_keys)

lemma keys_update_present:
  assumes "map_of al k = Some w"
  shows "map fst (AList.update k v al) = map fst al"
proof -
  from assms have "(k, w) \<in> set al" by (rule map_of_SomeD)
  then have "k \<in> fst ` set al" by (rule rev_image_eqI) simp
  then show ?thesis by (simp add: update_keys)
qed

lemma inv_fresh: "store_inv s \<Longrightarrow> currentId s \<notin> set (all_ids s)"
  unfolding store_inv_def by blast

lemma fresh_in_table:
  assumes "currentId s \<notin> set (all_ids s)"
  shows "currentId s \<notin> fst ` set (users s)" "currentId s \<notin> fst ` set (agents s)"
    "currentId s \<notin> fst ` set (alerts s)" "currentId s \<notin> fst ` set (incidents s)"
    "currentId s \<notin> fst ` set (logs s)" "currentId s \<notin> fst ` set (responseActions s)"
    "currentId s \<notin> fst ` set (llmInsights s)"
  using assms by (simp_all add: all_ids_def)

lemma inv_empty: "store_inv empty_storage"
  by (simp add: store_inv_def empty_storage_def all_ids_def)

lemma inv_step:
  assumes "store_inv s"
    and "mset (all_ids s') = add_mset (currentId s) (mset (all_ids s))"
    and "currentId s' = Suc (currentId s)"
  shows "store_inv s'"
proof -
  have fresh: "currentId s \<notin> set (all_ids s)" using assms(1) by (rule inv_fresh)
  have "mset (all_ids s') = mset (currentId s # all_ids s)" using assms(2) by simp
  then have d: "distinct (all_ids s') = distinct (currentId s # all_ids s)"
    and st: "set (all_ids s') = set (currentId s # all_ids s)"
    by (rule mset_eq_imp_distinct_iff, rule mset_eq_setD)
  have "distinct (all_ids s')" using d fresh assms(1) by (simp add: store_inv_def)
  moreover have "\<forall>i \<in> set (all_ids s'). i < currentId s'"
    using st assms(1,3) by (auto simp: store_inv_def less_Suc_eq)
  ultimately show ?thesis by (simp add: store_inv_def)
qed

lemma inv_same:
  assumes "store_inv s" and "all_ids s' = all_ids s" and "currentId s' = currentId s"
  shows "store_inv s'"
  using assms by (simp add: store_inv_def)

lemma ids_createUser:
  assumes "currentId s \<notin> set (all_ids s)"
  shows "mset (all_ids (snd (createUser ins now s))) = add_mset (currentId s) (mset (all_ids s))"
  using fresh_in_table[OF assms]
  by (simp add: createUser_def Let_def all_ids_def keys_update_fresh)

lemma inv_createUser: "store_inv s \<Longrightarrow> store_inv (snd (createUser ins now s))"
  by (rule inv_step, assumption, rule ids_createUser, erule inv_fresh)
     (simp add: createUser_def Let_def)

lemma ids_createAgent:
  assumes "currentId s \<notin> set (all_ids s)"
  shows "mset (all_ids (snd (createAgent ins now s))) = add_mset (currentId s) (mset (all_ids s))"
  using fresh_in_table[OF assms]
  by (simp add: createAgent_def Let_def all_ids_def keys_update_fresh)

lemma inv_createAgent: "store_inv s \<Longrightarrow> store_inv (snd (createAgent ins now s))"
  by (rule inv_step, assumption, rule ids_createAgent, erule inv_fresh)
     (simp add: createAgent_def Let_def)

lemma ids_createAlert:
  assumes "currentId s \<notin> set (all_ids s)"
  shows "mset (all_ids (snd (createAlert ins now s))) = add_mset (currentId s) (mset (all_ids s))"
  using fresh_in_table[OF assms]
  by (simp add: createAlert_def Let_def all_ids_def keys_update_fresh)

lemma inv_createAlert: "store_inv s \<Longrightarrow> store_inv (snd (createAlert ins now s))"
  by (rule inv_step, assumption, rule ids_createAlert, erule inv_fresh)
     (simp add: createAlert_def Let_def)

lemma ids_createIncident:
  assumes "currentId s \<notin> set (all_ids s)"
  shows "mset (all_ids (snd (createIncident ins now s))) = add_mset (currentId s) (mset (all_ids s))"
  using fresh_in_table[OF assms]
  by (simp add: createIncident_def Let_def all_ids_def keys_update_fresh)

lemma inv_createIncident: "store_inv s \<Longrightarrow> store_inv (snd (createIncident ins now s))"
  by (rule inv_step, assumption, rule ids_createIncident, erule inv_fresh)
     (simp add: createIncident_def Let_def)

lemma ids_createLog:
  assumes "currentId s \<notin> set (all_ids s)"
  shows "mset (all_ids (snd (createLog ins now s))) = add_mset (currentId s) (mset (all_ids s))"
  using fresh_in_table[OF assms]
  by (simp add: createLog_def Let_def all_ids_def keys_update_fresh)

lemma inv_createLog: "store_inv s \<Longrightarrow> store_inv (snd (createLog ins now s))"
  by (rule inv_step, assumption, rule ids_createLog, erule inv_fresh)
     (simp add: createLog_def Let_def)

lemma ids_createResponseAction:
  assumes "currentId s \<notin> set (all_ids s)"
  shows "mset (all_ids (snd (createResponseAction ins now s))) = add_mset (currentId s) (mset (all_ids s))"
  using fresh_in_table[OF assms]
  by (simp add: createResponseAction_def Let_def all_ids_def keys_update_fresh)

lemma inv_createResponseAction: "store_inv s \<Longrightarrow> store_inv (snd (createResponseAction ins now s))"
  by (rule inv_step, assumption, rule ids_createResponseAction, erule inv_fresh)
     (simp add: createResponseAction_def Let_def)

lemma ids_createLlmInsight:
  assumes "currentId s \<notin> set (all_ids s)"
  shows "mset (all_ids (snd (createLlmInsight ins now s))) = add_mset (currentId s) (mset (all_ids s))"
  using fresh_in_table[OF assms]
  by (simp add: createLlmInsight_def Let_def all_ids_def keys_update_fresh)

lemma inv_createLlmInsight: "store_inv s \<Longrightarrow> store_inv (snd (createLlmInsight ins now s))"
  by (rule inv_step, assumption, rule ids_createLlmInsight, erule inv_fresh)
     (simp add: createLlmInsight_def Let_def)

lemma ids_updateAgent: "all_ids (snd (updateAgent i upd s)) = all_ids s"
  by (simp add: updateAgent_def Let_def all_ids_def keys_update_present split: option.splits)

lemma inv_updateAgent: "store_inv s \<Longrightarrow> store_inv (snd (updateAgent i upd s))"
  by (erule inv_same, rule ids_updateAgent) (simp add: updateAgent_def Let_def split: option.splits)

lemma ids_updateAlert: "all_ids (snd (updateAlert i upd s)) = all_ids s"
  by (simp add: updateAlert_def Let_def all_ids_def keys_update_present split: option.splits)

lemma inv_updateAlert: "store_inv s \<Longrightarrow> store_inv (snd (updateAlert i upd s))"
  by (erule inv_same, rule ids_updateAlert) (simp add: updateAlert_def Let_def split: option.splits)

lemma ids_updateIncident: "all_ids (snd (updateIncident i upd s)) = all_ids s"
  by (simp add: updateIncident_def Let_def all_ids_def keys_update_present split: option.splits)

lemma inv_updateIncident: "store_inv s \<Longrightarrow> store_inv (snd (updateIncident i upd s))"
  by (erule inv_same, rule ids_updateIncident) (simp add: updateIncident_def Let_def split: option.splits)

lemma ids_updateResponseAction: "all_ids (snd (updateResponseAction i upd s)) = all_ids s"
  by (simp add: updateResponseAction_def Let_def all_ids_def keys_update_present split: option.splits)

lemma inv_updateResponseAction: "store_inv s \<Longrightarrow> store_inv (snd (updateResponseAction i upd s))"
  by (erule inv_same, rule ids_updateResponseAction) (simp add: updateResponseAction_def Let_def split: option.splits)

text \<open>What each \<open>create\<close> does to each part of the store.\<close>

lemma createUser_fields:
  "currentId (snd (createUser ins now s)) = Suc (currentId s)"
  "users (snd (createUser ins now s)) = AList.update (currentId s) (fst (createUser ins now s)) (users s)"
  "agents (snd (createUser ins now s)) = agents s"
  "alerts (snd (createUser ins now s)) = alerts s"
  "incidents (snd (createUser ins now s)) = incidents s"
  "logs (snd (createUser ins now s)) = logs s"
  "responseActions (snd (createUser ins now s)) = responseActions s"
  "llmInsights (snd (createUser ins now s)) = llmInsights s"
  by (simp_all add: createUser_def Let_def)

lemma createAgent_fields:
  "currentId (snd (createAgent ins now s)) = Suc (currentId s)"
  "users (snd (createAgent ins now s)) = users s"
  "agents (snd (createAgent ins now s)) = AList.update (currentId s) (fst (createAgent ins now s)) (agents s)"
  "alerts (snd (createAgent ins now s)) = alerts s"
  "incidents (snd (createAgent ins now s)) = incidents s"
  "logs (snd (createAgent ins now s)) = logs s"
  "responseActions (snd (createAgent ins now s)) = responseActions s"
  "llmInsights (snd (createAgent ins now s)) = llmInsights s"
  by (simp_all add: createAgent_def Let_def)

lemma createAlert_fields:
  "currentId (snd (createAlert ins now s)) = Suc (currentId s)"
  "users (snd (createAlert ins now s)) = users s"
  "agents (snd (createAlert ins now s)) = agents s"
  "alerts (snd (createAlert ins now s)) = AList.update (currentId s) (fst (createAlert ins now s)) (alerts s)"
  "incidents (snd (createAlert ins now s)) = incidents s"
  "logs (snd (createAlert ins now s)) = logs s"
  "responseActions (snd (createAlert ins now s)) = responseActions s"
  "llmInsights (snd (createAlert ins now s)) = llmInsights s"
  by (simp_all add: createAlert_def Let_def)

lemma createIncident_fields:
  "currentId (snd (createIncident ins now s)) = Suc (currentId s)"
  "users (snd (createIncident ins now s)) = users s"
  "agents (snd (createIncident ins now s)) = agents s"
  "alerts (snd (createIncident ins now s)) = alerts s"
  "incidents (snd (createIncident ins now s)) = AList.update (currentId s) (fst (createIncident ins now s)) (incidents s)"
  "logs (snd (createIncident ins now s)) = logs s"
  "responseActions (snd (createIncident ins now s)) = responseActions s"
  "llmInsights (snd (createIncident ins now s)) = llmInsights s"
  by (simp_all add: createIncident_def Let_def)

lemma createLog_fields:
  "currentId (snd (createLog ins now s)) = Suc (currentId s)"
  "users (snd (createLog ins now s)) = users s"
  "agents (snd (createLog ins now s)) = agents s"
  "alerts (snd (createLog ins now s)) = alerts s"
  "incidents (snd (createLog ins now s)) = incidents s"
  "logs (snd (createLog ins now s)) = AList.update (currentId s) (fst (createLog ins now s)) (logs s)"
  "responseActions (snd (createLog ins now s)) = responseActions s"
  "llmInsights (snd (createLog ins now s)) = llmInsights s"
  by (simp_all add: createLog_def Let_def)

lemma createResponseAction_fields:
  "currentId (snd (createResponseAction ins now s)) = Suc (currentId s)"
  "users (snd (createResponseAction ins now s)) = users s"
  "agents (snd (createResponseAction ins now s)) = agents s"
  "alerts (snd (createResponseAction ins now s)) = alerts s"
  "incidents (snd (createResponseAction ins now s)) = incidents s"
  "logs (snd (createResponseAction ins now s)) = logs s"
  "responseActions (snd (createResponseAction ins now s)) = AList.update (currentId s) (fst (createResponseAction ins now s)) (responseActions s)"
  "llmInsights (snd (createResponseAction ins now s)) = llmInsights s"
  by (simp_all add: createResponseAction_def Let_def)

lemma createLlmInsight_fields:
  "currentId (snd (createLlmInsight ins now s)) = Suc (currentId s)"
  "users (snd (createLlmInsight ins now s)) = users s"
  "agents (snd (createLlmInsight ins now s)) = agents s"
  "alerts (snd (createLlmInsight ins now s)) = alerts s"
  "incidents (snd (createLlmInsight ins now s)) = incidents s"
  "logs (snd (createLlmInsight ins now s)) = logs s"
  "responseActions (snd (createLlmInsight ins now s)) = responseActions s"
  "llmInsights (snd (createLlmInsight ins now s)) = AList.update (currentId s) (fst (createLlmInsight ins now s)) (llmInsights s)"
  by (simp_all add: createLlmInsight_def Let_def)

lemma create_records:
  "fst (createUser ins now s) = user_record ins (currentId s) now"
  "fst (createAgent ins now s) = agent_record ins (currentId s) now"
  "fst (createAlert ins now s) = alert_record ins (currentId s) now"
  "fst (createIncident ins now s) = incident_record ins (currentId s) now"
  "fst (createLog ins now s) = log_record ins (currentId s) now"
  "fst (createResponseAction ins now s) = action_record ins (currentId s) now"
  "fst (createLlmInsight ins now s) = insight_record ins (currentId s) now"
  by (simp_all add: createUser_def createAgent_def createAlert_def createIncident_def createLog_def createResponseAction_def createLlmInsight_def Let_def)

lemmas record_defs = user_record_def agent_record_def alert_record_def incident_record_def log_record_def action_record_def insight_record_def

lemmas new_MemStorage_eval =
  new_MemStorage_def initialAgents_def initialActions_def empty_storage_def
  createAgent_fields createResponseAction_fields update_conv'

lemma inv_new_MemStorage: "store_inv (new_MemStorage now)"
  unfolding new_MemStorage_def initialAgents_def initialActions_def fold_simps id_o o_id comp_apply
  by (intro inv_createResponseAction inv_createAgent inv_empty)

lemma reachable_inv: "reachable s \<Longrightarrow> store_inv s"
proof (induction rule: reachable.induct)
  case (r_new now)
  show ?case by (rule inv_new_MemStorage)
qed (erule inv_createUser inv_createAgent inv_createAlert inv_createIncident inv_createLog
      inv_createResponseAction inv_createLlmInsight inv_updateAgent inv_updateAlert
      inv_updateIncident inv_updateResponseAction)+

lemma server_assigned_createAgent:
  assumes "store_inv s"
  shows "server_assigned createAgent agents ins now s"
proof -
  have fresh: "currentId s \<notin> set (all_ids s)" using assms by (rule inv_fresh)
  have "store_inv (snd (createAgent ins now s))" using assms by (rule inv_createAgent)
  then have d: "distinct (all_ids (snd (createAgent ins now s)))" by (simp add: store_inv_def)
  have m: "currentId s \<in> set (all_ids (snd (createAgent ins now s)))"
    using arg_cong[where f = set_mset, OF ids_createAgent[OF fresh, of ins now]] by simp
  have r: "get_prop (fst (createAgent ins now s)) ''id'' = VNum (of_nat (currentId s))"
      "get_prop (fst (createAgent ins now s)) ''createdAt'' = VDate now"
    by (simp_all add: create_records record_defs get_prop_def spread_def)
  have st: "map_of (agents (snd (createAgent ins now s))) (currentId s) = Some (fst (createAgent ins now s))"
    by (simp add: createAgent_def Let_def update_conv')
  show ?thesis
    unfolding server_assigned_def using fresh d m r st by (simp add: case_prod_beta)
qed

lemma server_assigned_createAlert:
  assumes "store_inv s"
  shows "server_assigned createAlert alerts ins now s"
proof -
  have fresh: "currentId s \<notin> set (all_ids s)" using assms by (rule inv_fresh)
  have "store_inv (snd (createAlert ins now s))" using assms by (rule inv_createAlert)
  then have d: "distinct (all_ids (snd (createAlert ins now s)))" by (simp add: store_inv_def)
  have m: "currentId s \<in> set (all_ids (snd (createAlert ins now s)))"
    using arg_cong[where f = set_mset, OF ids_createAlert[OF fresh, of ins now]] by simp
  have r: "get_prop (fst (createAlert ins now s)) ''id'' = VNum (of_nat (currentId s))"
      "get_prop (fst (createAlert ins now s)) ''createdAt'' = VDate now"
    by (simp_all add: create_records record_defs get_prop_def spread_def)
  have st: "map_of (alerts (snd (createAlert ins now s))) (currentId s) = Some (fst (createAlert ins now s))"
    by (simp add: createAlert_def Let_def update_conv')
  show ?thesis
    unfolding server_assigned_def using fresh d m r st by (simp add: case_prod_beta)
qed

lemma server_assigned_createIncident:
  assumes "store_inv s"
  shows "server_assigned createIncident incidents ins now s"
proof -
  have fresh: "currentId s \<notin> set (all_ids s)" using assms by (rule inv_fresh)
  have "store_inv (snd (createIncident ins now s))" using assms by (rule inv_createIncident)
  then have d: "distinct (all_ids (snd (createIncident ins now s)))" by (simp add: store_inv_def)
  have m: "currentId s \<in> set (all_ids (snd (createIncident ins now s)))"
    using arg_cong[where f = set_mset, OF ids_createIncident[OF fresh, of ins now]] by simp
  have r: "get_prop (fst (createIncident ins now s)) ''id'' = VNum (of_nat (currentId s))"
      "get_prop (fst (createIncident ins now s)) ''createdAt'' = VDate now"
    by (simp_all add: create_records record_defs get_prop_def spread_def)
  have st: "map_of (incidents (snd (createIncident ins now s))) (currentId s) = Some (fst (createIncident ins now s))"
    by (simp add: createIncident_def Let_def update_conv')
  show ?thesis
    unfolding server_assigned_def using fresh d m r st by (simp add: case_prod_beta)
qed

lemma server_assigned_createLog:
  assumes "store_inv s"
  shows "server_assigned createLog logs ins now s"
proof -
  have fresh: "currentId s \<notin> set (all_ids s)" using assms by (rule inv_fresh)
  have "store_inv (snd (createLog ins now s))" using assms by (rule inv_createLog)
  then have d: "distinct (all_ids (snd (createLog ins now s)))" by (simp add: store_inv_def)
  have m: "currentId s \<in> set (all_ids (snd (createLog ins now s)))"
    using arg_cong[where f = set_mset, OF ids_createLog[OF fresh, of ins now]] by simp
  have r: "get_prop (fst (createLog ins now s)) ''id'' = VNum (of_nat (currentId s))"
      "get_prop (fst (createLog ins now s)) ''createdAt'' = VDate now"
    by (simp_all add: create_records record_defs get_prop_def spread_def)
  have st: "map_of (logs (snd (createLog ins now s))) (currentId s) = Some (fst (createLog ins now s))"
    by (simp add: createLog_def Let_def update_conv')
  show ?thesis
    unfolding server_assigned_def using fresh d m r st by (simp add: case_prod_beta)
qed

lemma server_assigned_createResponseAction:
  assumes "store_inv s"
  shows "server_assigned createResponseAction responseActions ins now s"
proof -
  have fresh: "currentId s \<notin> set (all_ids s)" using assms by (rule inv_fresh)
  have "store_inv (snd (createResponseAction ins now s))" using assms by (rule inv_createResponseAction)
  then have d: "distinct (all_ids (snd (createResponseAction ins now s)))" by (simp add: store_inv_def)
  have m: "currentId s \<in> set (all_ids (snd (createResponseAction ins now s)))"
    using arg_cong[where f = set_mset, OF ids_createResponseAction[OF fresh, of ins now]] by simp
  have r: "get_prop (fst (createResponseAction ins now s)) ''id'' = VNum (of_nat (currentId s))"
      "get_prop (fst (createResponseAction ins now s)) ''createdAt'' = VDate now"
    by (simp_all add: create_records record_defs get_prop_def spread_def)
  have st: "map_of (responseActions (snd (createResponseAction ins now s))) (currentId s) = Some (fst (createResponseAction ins now s))"
    by (simp add: createResponseAction_def Let_def update_conv')
  show ?thesis
    unfolding server_assigned_def using fresh d m r st by (simp add: case_prod_beta)
qed

lemma server_assigned_createLlmInsight:
  assumes "store_inv s"
  shows "server_assigned createLlmInsight llmInsights ins now s"
proof -
  have fresh: "currentId s \<notin> set (all_ids s)" using assms by (rule inv_fresh)
  have "store_inv (snd (createLlmInsight ins now s))" using assms by (rule inv_createLlmInsight)
  then have d: "distinct (all_ids (snd (createLlmInsight ins now s)))" by (simp add: store_inv_def)
  have m: "currentId s \<in> set (all_ids (snd (createLlmInsight ins now s)))"
    using arg_cong[where f = set_mset, OF ids_createLlmInsight[OF fresh, of ins now]] by simp
  have r: "get_prop (fst (createLlmInsight ins now s)) ''id'' = VNum (of_nat (currentId s))"
      "get_prop (fst (createLlmInsight ins now s)) ''createdAt'' = VDate now"
    by (simp_all add: create_records record_defs get_prop_def spread_def)
  have st: "map_of (llmInsights (snd (createLlmInsight ins now s))) (currentId s) = Some (fst (createLlmInsight ins now s))"
    by (simp add: createLlmInsight_def Let_def update_conv')
  show ?thesis
    unfolding server_assigned_def using fresh d m r st by (simp add: case_prod_beta)
qed


section \<open>Event Store: the claims about create and update\<close>


text \<open>
  C4. For each of the four entity kinds that have an \<open>update\<close> (Agent, Alert, Incident,
  ResponseAction) and every id the table does not hold, \<open>update(id, patch)\<close> returns
  \<open>undefined\<close> and the store afterwards is the store before: no record is created or
  changed and the counter does not move. The function has no failing branch, so nothing
  is raised to the caller.
\<close>

theorem update_absent_id_returns_undefined:
  "(getAgent i s = None \<longrightarrow> updateAgent i upd s = (None, s)) \<and>
   (getAlert i s = None \<longrightarrow> updateAlert i upd s = (None, s)) \<and>
   (getIncident i s = None \<longrightarrow> updateIncident i upd s = (None, s)) \<and>
   (getResponseAction i s = None \<longrightarrow> updateResponseAction i upd s = (None, s))"
  by (simp add: getAgent_def getAlert_def getIncident_def getResponseAction_def
      updateAgent_def updateAlert_def updateIncident_def updateResponseAction_def)

theorem update_absent_id_witness:
  "getAgent 99 (new_MemStorage 0) = None \<and>
   updateAgent 99 [''status'' \<mapsto> VStr ''active''] (new_MemStorage 0) = (None, new_MemStorage 0) \<and>
   getAlert 99 (new_MemStorage 0) = None \<and>
   updateAlert 99 [''status'' \<mapsto> VStr ''resolved''] (new_MemStorage 0) = (None, new_MemStorage 0) \<and>
   getIncident 99 (new_MemStorage 0) = None \<and>
   updateIncident 99 [''status'' \<mapsto> VStr ''closed''] (new_MemStorage 0) = (None, new_MemStorage 0) \<and>
   getResponseAction 99 (new_MemStorage 0) = None \<and>
   updateResponseAction 99 [''status'' \<mapsto> VStr ''disabled''] (new_MemStorage 0) =
     (None, new_MemStorage 0)"
proof -
  have a: "getAgent 99 (new_MemStorage 0) = None"
    by (simp add: getAgent_def new_MemStorage_eval)
  have b: "getAlert 99 (new_MemStorage 0) = None"
    by (simp add: getAlert_def new_MemStorage_eval)
  have c: "getIncident 99 (new_MemStorage 0) = None"
    by (simp add: getIncident_def new_MemStorage_eval)
  have d: "getResponseAction 99 (new_MemStorage 0) = None"
    by (simp add: getResponseAction_def new_MemStorage_eval)
  note t1 = update_absent_id_returns_undefined
    [of 99 "new_MemStorage 0" "[''status'' \<mapsto> VStr ''active'']"]
  note t2 = update_absent_id_returns_undefined
    [of 99 "new_MemStorage 0" "[''status'' \<mapsto> VStr ''resolved'']"]
  note t3 = update_absent_id_returns_undefined
    [of 99 "new_MemStorage 0" "[''status'' \<mapsto> VStr ''closed'']"]
  note t4 = update_absent_id_returns_undefined
    [of 99 "new_MemStorage 0" "[''status'' \<mapsto> VStr ''disabled'']"]
  from a t1 have a': "updateAgent 99 [''status'' \<mapsto> VStr ''active''] (new_MemStorage 0) =
      (None, new_MemStorage 0)" by blast
  from b t2 have b': "updateAlert 99 [''status'' \<mapsto> VStr ''resolved''] (new_MemStorage 0) =
      (None, new_MemStorage 0)" by blast
  from c t3 have c': "updateIncident 99 [''status'' \<mapsto> VStr ''closed''] (new_MemStorage 0) =
      (None, new_MemStorage 0)" by blast
  from d t4 have d': "updateResponseAction 99 [''status'' \<mapsto> VStr ''disabled'']
      (new_MemStorage 0) = (None, new_MemStorage 0)" by blast
  from a a' b b' c c' d d' show ?thesis by blast
qed

lemma event_time_of_created:
  "get_prop (fst (createAlert ins now s)) ''timestamp'' =
     js_or (get_prop ins ''timestamp'') (VDate now)"
  "get_prop (fst (createIncident ins now s)) ''timestamp'' =
     js_or (get_prop ins ''timestamp'') (VDate now)"
  "get_prop (fst (createLog ins now s)) ''timestamp'' =
     js_or (get_prop ins ''timestamp'') (VDate now)"
  "get_prop (fst (createLlmInsight ins now s)) ''timestamp'' =
     js_or (get_prop ins ''timestamp'') (VDate now)"
  by (simp_all add: create_records record_defs get_prop_def spread_def)

text \<open>
  C3 (as amended). In every state the store can reach, a \<open>create\<close> call on any of the six
  entity kinds (Agent, Alert, Incident, Log, ResponseAction, Insight), with any input
  object, returns a record whose \<open>id\<close> is the counter's value, an identity that no stored
  record of any table had; the record is stored under it and all identities stay pairwise
  different. Its creation timestamp \<open>createdAt\<close> is the server clock. Both hold whatever
  the input carries under \<open>id\<close> and \<open>createdAt\<close>: those two properties of the input are
  overridden. The event time \<open>timestamp\<close> of an alert, incident, log or insight is the
  input's \<open>timestamp\<close> when the input has one, and the server clock otherwise.
\<close>

theorem create_assigns_identity_and_creation_time:
  assumes "reachable s"
  shows "server_assigned createAgent agents ins now s \<and>
         server_assigned createAlert alerts ins now s \<and>
         server_assigned createIncident incidents ins now s \<and>
         server_assigned createLog logs ins now s \<and>
         server_assigned createResponseAction responseActions ins now s \<and>
         server_assigned createLlmInsight llmInsights ins now s \<and>
         get_prop (fst (createAlert ins now s)) ''timestamp'' =
           js_or (get_prop ins ''timestamp'') (VDate now) \<and>
         get_prop (fst (createIncident ins now s)) ''timestamp'' =
           js_or (get_prop ins ''timestamp'') (VDate now) \<and>
         get_prop (fst (createLog ins now s)) ''timestamp'' =
           js_or (get_prop ins ''timestamp'') (VDate now) \<and>
         get_prop (fst (createLlmInsight ins now s)) ''timestamp'' =
           js_or (get_prop ins ''timestamp'') (VDate now)"
proof -
  have "store_inv s" using assms by (rule reachable_inv)
  then show ?thesis
    by (intro conjI server_assigned_createAgent server_assigned_createAlert
        server_assigned_createIncident server_assigned_createLog
        server_assigned_createResponseAction server_assigned_createLlmInsight
        event_time_of_created)
qed

theorem create_assigns_identity_witness:
  "reachable (new_MemStorage 0) \<and>
   get_prop (fst (createAlert [''id'' \<mapsto> VNum 999, ''createdAt'' \<mapsto> VDate 5,
       ''title'' \<mapsto> VStr ''X''] 1000 (new_MemStorage 0))) ''id'' = VNum 9 \<and>
   get_prop (fst (createAlert [''id'' \<mapsto> VNum 999, ''createdAt'' \<mapsto> VDate 5,
       ''title'' \<mapsto> VStr ''X''] 1000 (new_MemStorage 0))) ''createdAt'' = VDate 1000 \<and>
   get_prop (fst (createAlert [''id'' \<mapsto> VNum 999, ''createdAt'' \<mapsto> VDate 5,
       ''title'' \<mapsto> VStr ''X''] 1000 (new_MemStorage 0))) ''timestamp'' = VDate 1000 \<and>
   9 \<notin> set (all_ids (new_MemStorage 0)) \<and>
   distinct (all_ids (snd (createAlert [''id'' \<mapsto> VNum 999, ''createdAt'' \<mapsto> VDate 5,
       ''title'' \<mapsto> VStr ''X''] 1000 (new_MemStorage 0))))"
proof -
  have r: "reachable (new_MemStorage 0)" by (rule r_new)
  have c: "currentId (new_MemStorage 0) = 9" by (simp add: new_MemStorage_eval)
  note t = create_assigns_identity_and_creation_time [OF r,
      of "[''id'' \<mapsto> VNum 999, ''createdAt'' \<mapsto> VDate 5, ''title'' \<mapsto> VStr ''X'']" 1000]
  then have "server_assigned createAlert alerts
      [''id'' \<mapsto> VNum 999, ''createdAt'' \<mapsto> VDate 5, ''title'' \<mapsto> VStr ''X''] 1000
      (new_MemStorage 0)" by blast
  moreover from t have "get_prop (fst (createAlert [''id'' \<mapsto> VNum 999,
       ''createdAt'' \<mapsto> VDate 5, ''title'' \<mapsto> VStr ''X''] 1000 (new_MemStorage 0)))
       ''timestamp'' =
     js_or (get_prop [''id'' \<mapsto> VNum 999, ''createdAt'' \<mapsto> VDate 5, ''title'' \<mapsto> VStr ''X'']
       ''timestamp'') (VDate 1000)" by blast
  ultimately show ?thesis
    using r unfolding server_assigned_def c
    by (simp add: case_prod_beta get_prop_def js_or_def)
qed

text \<open>
  C3 as stated fails for the property named \<open>timestamp\<close>: an alert created at server time
  1000 from an input that carries \<open>timestamp\<close> 5 (and an \<open>id\<close> and a \<open>createdAt\<close>) gets the
  new \<open>id\<close> and \<open>createdAt\<close> 1000, but keeps the client's \<open>timestamp\<close> 5.
\<close>

theorem client_timestamp_counterexample:
  "get_prop (fst (createAlert [''id'' \<mapsto> VNum 999, ''createdAt'' \<mapsto> VDate 5,
       ''timestamp'' \<mapsto> VDate 5, ''title'' \<mapsto> VStr ''X''] 1000 (new_MemStorage 0)))
     ''timestamp'' = VDate 5 \<and>
   get_prop (fst (createAlert [''id'' \<mapsto> VNum 999, ''createdAt'' \<mapsto> VDate 5,
       ''timestamp'' \<mapsto> VDate 5, ''title'' \<mapsto> VStr ''X''] 1000 (new_MemStorage 0)))
     ''createdAt'' = VDate 1000 \<and>
   get_prop (fst (createAlert [''id'' \<mapsto> VNum 999, ''createdAt'' \<mapsto> VDate 5,
       ''timestamp'' \<mapsto> VDate 5, ''title'' \<mapsto> VStr ''X''] 1000 (new_MemStorage 0)))
     ''id'' = VNum 9"
  by (simp add: create_records record_defs get_prop_def spread_def js_or_def
      new_MemStorage_eval)

section \<open>Event Store: listings\<close>

text \<open>On records that all have a time, the comparator is consistent, and sorting by it is
  the stable sort by descending time.\<close>

lemma valid_timesD: "valid_times tm xs \<Longrightarrow> r \<in> set xs \<Longrightarrow> getTime tm r = Some (time_of tm r)"
  by (auto simp add: valid_times_def list_all_iff time_of_def)

lemma compare_newest_valid:
  assumes "getTime tm a = Some (time_of tm a)" "getTime tm b = Some (time_of tm b)"
  shows "compare_newest tm a b = Some (time_of tm b - time_of tm a)"
  using assms by (simp add: compare_newest_def)

lemma consistent_compare_newest:
  assumes "valid_times tm xs"
  shows "consistent (compare_newest tm) xs"
proof -
  have c: "compare_newest tm a b = Some (time_of tm b - time_of tm a)"
    if "a \<in> set xs" "b \<in> set xs" for a b
    using that valid_timesD[OF assms] by (simp add: compare_newest_valid)
  show ?thesis
    unfolding consistent_def list_all_iff comes_before_def compares_equal_def comes_after_def
    by (auto simp add: c)
qed

lemma insert_by_compare_newest:
  assumes "getTime tm x = Some (time_of tm x)"
    and "\<forall>y \<in> set ys. getTime tm y = Some (time_of tm y)"
  shows "insert_by (compare_newest tm) x ys = insort_key (\<lambda>r. - time_of tm r) x ys"
  using assms(2)
proof (induction ys)
  case Nil
  show ?case by simp
next
  case (Cons y ys)
  have "compare_newest tm x y = Some (time_of tm y - time_of tm x)"
    using assms(1) Cons.prems by (simp add: compare_newest_valid)
  then have "comes_after (compare_newest tm) x y = (\<not> time_of tm y \<le> time_of tm x)"
    by (auto simp add: comes_after_def)
  then show ?case using Cons by simp
qed

lemma insertion_sort_compare_newest:
  assumes "\<forall>y \<in> set xs. getTime tm y = Some (time_of tm y)"
  shows "foldr (insert_by (compare_newest tm)) xs [] = sort_key (\<lambda>r. - time_of tm r) xs"
  using assms
proof (induction xs)
  case Nil
  show ?case by simp
next
  case (Cons x xs)
  have "\<forall>y \<in> set (sort_key (\<lambda>r. - time_of tm r) xs). getTime tm y = Some (time_of tm y)"
    using Cons.prems by simp
  then show ?case using Cons by (simp add: insert_by_compare_newest)
qed

lemma sort_newest_first_valid:
  assumes "valid_times tm xs"
  shows "sort_newest_first engine tm xs = sort_key (\<lambda>r. - time_of tm r) xs"
proof -
  have "\<forall>y \<in> set xs. getTime tm y = Some (time_of tm y)"
    using valid_timesD[OF assms] by blast
  then show ?thesis
    by (simp add: sort_newest_first_def array_sort_def consistent_compare_newest[OF assms]
        insertion_sort_compare_newest)
qed

text \<open>A record without a time makes the comparator inconsistent: the order is the engine's.\<close>

lemma sort_newest_first_invalid:
  assumes "\<not> valid_times tm xs"
  shows "sort_newest_first engine tm xs = engine (compare_newest tm) xs"
proof -
  from assms obtain r where r: "r \<in> set xs" "getTime tm r = None"
    by (auto simp add: valid_times_def list_all_iff)
  then have "compare_newest tm r r = None" by (simp add: compare_newest_def)
  with r(1) have "\<not> consistent (compare_newest tm) xs"
    by (auto simp add: consistent_def list_all_iff)
  then show ?thesis by (simp add: sort_newest_first_def array_sort_def)
qed

lemma not_older_valid:
  assumes "getTime tm a = Some (time_of tm a)" "getTime tm b = Some (time_of tm b)"
  shows "not_older tm a b = (time_of tm b \<le> time_of tm a)"
  using assms by (simp add: not_older_def)

lemma newest_first_sort:
  assumes "valid_times tm xs"
  shows "newest_first tm (sort_newest_first engine tm xs)"
proof -
  let ?srt = "sort_key (\<lambda>r. - time_of tm r) xs"
  have "sorted (map (\<lambda>r. - time_of tm r) ?srt)" by (rule sorted_sort_key)
  then have s: "sorted_wrt (\<lambda>a b. time_of tm b \<le> time_of tm a) ?srt"
    by (simp add: sorted_map)
  have "sorted_wrt (not_older tm) ?srt"
  proof (rule sorted_wrt_mono_rel[OF _ s])
    fix a b
    assume "a \<in> set ?srt" "b \<in> set ?srt" "time_of tm b \<le> time_of tm a"
    then show "not_older tm a b"
      using valid_timesD[OF assms] by (simp add: not_older_valid)
  qed
  then show ?thesis by (simp add: newest_first_def sort_newest_first_valid[OF assms])
qed

lemma newest_first_take: "newest_first tm xs \<Longrightarrow> newest_first tm (take n xs)"
  unfolding newest_first_def by (rule sorted_wrt_take)

lemma mset_sort_newest_first:
  "valid_times tm xs \<Longrightarrow> mset (sort_newest_first engine tm xs) = mset xs"
  by (simp add: sort_newest_first_valid)

lemma stable_sort_newest_first:
  assumes "valid_times tm xs"
  shows "filter (\<lambda>r. getTime tm r = Some t) (sort_newest_first engine tm xs) =
         filter (\<lambda>r. getTime tm r = Some t) xs"
proof -
  let ?srt = "sort_key (\<lambda>r. - time_of tm r) xs"
  have k: "filter (\<lambda>r. - time_of tm r = - t) ?srt = filter (\<lambda>r. - time_of tm r = - t) xs"
    by (rule sort_key_stable)
  have e: "(getTime tm r = Some t) = (- time_of tm r = - t)" if "r \<in> set xs" for r
    using valid_timesD[OF assms that] by auto
  have "filter (\<lambda>r. getTime tm r = Some t) ?srt = filter (\<lambda>r. - time_of tm r = - t) ?srt"
    by (rule filter_cong) (simp_all add: e)
  moreover have "filter (\<lambda>r. getTime tm r = Some t) xs = filter (\<lambda>r. - time_of tm r = - t) xs"
    by (rule filter_cong) (simp_all add: e)
  ultimately show ?thesis using k by (simp add: sort_newest_first_valid[OF assms])
qed

lemma limited_pos: "0 < n \<Longrightarrow> limited (Some n) xs = take (nat n) xs"
  by (simp add: limited_def slice0_def)

lemma take_sorted_rest:
  assumes "newest_first tm xs" "a \<in> set (take n xs)" "b \<in> set (drop n xs)"
  shows "not_older tm a b"
proof -
  have "xs = take n xs @ drop n xs" by simp
  then have "sorted_wrt (not_older tm) (take n xs @ drop n xs)"
    using assms(1) by (simp add: newest_first_def)
  then show ?thesis using assms(2,3) unfolding sorted_wrt_append by blast
qed

lemma lists_newest_first_limited:
  assumes "valid_times tm vals"
  shows "lists_newest_first tm (\<lambda>l. limited l (sort_newest_first engine tm vals)) vals"
proof -
  let ?all = "sort_newest_first engine tm vals"
  have n0: "limited None ?all = ?all" by (simp add: limited_def)
  have z: "limited (Some 0) ?all = ?all" by (simp add: limited_def)
  have nf: "newest_first tm ?all" using assms by (rule newest_first_sort)
  have pos: "limited (Some n) ?all = take (nat n) ?all \<and>
        int (length (limited (Some n) ?all)) \<le> n \<and>
        newest_first tm (limited (Some n) ?all) \<and>
        (\<forall>a \<in> set (limited (Some n) ?all). \<forall>b \<in> set (drop (nat n) ?all). not_older tm a b)"
    if "0 < n" for n
  proof -
    have e: "limited (Some n) ?all = take (nat n) ?all" using that by (rule limited_pos)
    have l: "int (length (take (nat n) ?all)) \<le> n" using that by simp
    have s: "newest_first tm (take (nat n) ?all)" using nf by (rule newest_first_take)
    have r: "\<forall>a \<in> set (take (nat n) ?all). \<forall>b \<in> set (drop (nat n) ?all). not_older tm a b"
      using take_sorted_rest[OF nf] by blast
    show ?thesis unfolding e using l s r by simp
  qed
  have ms: "mset ?all = mset vals" using assms by (rule mset_sort_newest_first)
  have sb: "\<forall>t. filter (\<lambda>r. getTime tm r = Some t) ?all =
      filter (\<lambda>r. getTime tm r = Some t) vals"
    using assms by (intro allI stable_sort_newest_first)
  have pos': "\<forall>n. 0 < n \<longrightarrow>
        limited (Some n) ?all = take (nat n) ?all \<and>
        int (length (limited (Some n) ?all)) \<le> n \<and>
        newest_first tm (limited (Some n) ?all) \<and>
        (\<forall>a \<in> set (limited (Some n) ?all). \<forall>b \<in> set (drop (nat n) ?all). not_older tm a b)"
    using pos by blast
  show ?thesis
    unfolding lists_newest_first_def n0 z
    by (intro conjI nf ms sb pos' refl)
qed

text \<open>The first \<open>n\<close> of the sorted list are the \<open>n\<close> most recent of the stored records.\<close>

lemma most_recent_take:
  assumes "valid_times tm vals"
  shows "most_recent tm n (take n (sort_newest_first engine tm vals)) vals"
proof -
  let ?all = "sort_newest_first engine tm vals"
  have ms: "mset ?all = mset vals" using assms by (rule mset_sort_newest_first)
  have nf: "newest_first tm ?all" using assms by (rule newest_first_sort)
  have split: "mset vals = mset (take n ?all) + mset (drop n ?all)"
    unfolding ms[symmetric] by (metis append_take_drop_id mset_append)
  have len: "length ?all = length vals" using ms by (rule mset_eq_length)
  have l: "length (take n ?all) = min n (length vals)" using len by simp
  have sub: "mset (take n ?all) \<subseteq># mset vals" unfolding split by simp
  have rest: "mset vals - mset (take n ?all) = mset (drop n ?all)" unfolding split by simp
  have r: "\<forall>a \<in> set (take n ?all). \<forall>b \<in> set_mset (mset vals - mset (take n ?all)).
      not_older tm a b"
    unfolding rest using take_sorted_rest[OF nf] by simp
  show ?thesis
    unfolding most_recent_def using l sub newest_first_take[OF nf] r by blast
qed

lemma update_fresh_append: "k \<notin> fst ` set al \<Longrightarrow> AList.update k v al = al @ [(k, v)]"
  by (induction al) auto

lemma appended_createAgent:
  assumes "reachable s"
  shows "getAgents (snd (createAgent ins now s)) = getAgents s @ [fst (createAgent ins now s)]"
proof -
  have "currentId s \<notin> fst ` set (agents s)"
    using fresh_in_table(2)[OF inv_fresh[OF reachable_inv[OF assms]]] .
  then show ?thesis
    by (simp add: getAgents_def values_of_def createAgent_fields update_fresh_append)
qed

lemma appended_createResponseAction:
  assumes "reachable s"
  shows "getResponseActions (snd (createResponseAction ins now s)) =
         getResponseActions s @ [fst (createResponseAction ins now s)]"
proof -
  have "currentId s \<notin> fst ` set (responseActions s)"
    using fresh_in_table(6)[OF inv_fresh[OF reachable_inv[OF assms]]] .
  then show ?thesis
    by (simp add: getResponseActions_def values_of_def createResponseAction_fields
        update_fresh_append)
qed

lemma appended_createAlert:
  assumes "reachable s"
  shows "values_of (alerts (snd (createAlert ins now s))) =
         values_of (alerts s) @ [fst (createAlert ins now s)]"
proof -
  have "currentId s \<notin> fst ` set (alerts s)"
    using fresh_in_table(3)[OF inv_fresh[OF reachable_inv[OF assms]]] .
  then show ?thesis
    by (simp add: values_of_def createAlert_fields update_fresh_append)
qed

lemma reachable_example_store: "reachable example_store"
  unfolding example_store_def
  by (intro r_createIncident r_createAlert r_new)

lemmas example_store_eval =
  example_store_def createAlert_fields createIncident_fields new_MemStorage_eval

lemmas object_eval = get_prop_def spread_def js_or_def

lemmas store_eval = example_store_eval create_records record_defs object_eval

lemma valid_times_example_store: "valid_times date_time (values_of (alerts example_store))"
  by (simp add: valid_times_def getTime_def date_time_def values_of_def store_eval)

lemma valid_times_example_store_rest:
  "valid_times date_time (values_of (incidents example_store))"
  "valid_times date_time (values_of (logs example_store))"
  "valid_times date_time (values_of (llmInsights example_store))"
  by (simp_all add: valid_times_def getTime_def date_time_def values_of_def store_eval)

lemma alerts_of_example_store:
  "map (\<lambda>r. get_prop r ''title'') (getAlerts example_engine date_time None example_store) =
     [VStr ''B'', VStr ''A'']"
  unfolding getAlerts_def sort_newest_first_valid[OF valid_times_example_store]
  by (simp add: limited_def time_of_def getTime_def date_time_def values_of_def store_eval)

text \<open>
  C7 (as amended). In the in-memory store, whenever every stored record of the kind has a
  \<open>timestamp\<close> that is a valid time, \<open>getAlerts\<close>, \<open>getIncidents\<close>, \<open>getLogs\<close> and
  \<open>getLlmInsights\<close> sort whether or not a limit is given: without a limit (or with limit 0)
  they return all records ordered newest first by \<open>timestamp\<close>, records of equal time in
  insertion order; with a positive limit \<open>n\<close> they return the first \<open>n\<close> of that list, so at
  most \<open>n\<close> records, newest first, none older than a record left out. Insertion order is the
  order of the tables themselves (a created record goes last), and it is what \<open>getAgents\<close>
  and \<open>getResponseActions\<close>, which take no limit, return.
\<close>

theorem listings_are_newest_first:
  "(valid_times tm (values_of (alerts s)) \<longrightarrow>
      lists_newest_first tm (\<lambda>l. getAlerts engine tm l s) (values_of (alerts s))) \<and>
   (valid_times tm (values_of (incidents s)) \<longrightarrow>
      lists_newest_first tm (\<lambda>l. getIncidents engine tm l s) (values_of (incidents s))) \<and>
   (valid_times tm (values_of (logs s)) \<longrightarrow>
      lists_newest_first tm (\<lambda>l. getLogs engine tm l s) (values_of (logs s))) \<and>
   (valid_times tm (values_of (llmInsights s)) \<longrightarrow>
      lists_newest_first tm (\<lambda>l. getLlmInsights engine tm l s) (values_of (llmInsights s))) \<and>
   (reachable s \<longrightarrow>
      values_of (alerts (snd (createAlert ins now s))) =
        values_of (alerts s) @ [fst (createAlert ins now s)] \<and>
      getAgents (snd (createAgent ins now s)) = getAgents s @ [fst (createAgent ins now s)] \<and>
      getResponseActions (snd (createResponseAction ins now s)) =
        getResponseActions s @ [fst (createResponseAction ins now s)])"
  unfolding getAlerts_def getIncidents_def getLogs_def getLlmInsights_def
  by (intro conjI impI lists_newest_first_limited appended_createAgent
      appended_createResponseAction appended_createAlert)

text \<open>
  C7 as stated fails: after alert A (time 1) and then alert B (time 2) are created, the
  listing without a limit is B, A, not the insertion order A, B; and limit 0 returns both
  records, not at most 0.
\<close>

theorem list_without_limit_counterexample:
  "map (\<lambda>r. get_prop r ''title'') (values_of (alerts example_store)) = [VStr ''A'', VStr ''B''] \<and>
   map (\<lambda>r. get_prop r ''title'') (getAlerts example_engine date_time None example_store) =
     [VStr ''B'', VStr ''A''] \<and>
   getAlerts example_engine date_time None example_store \<noteq> values_of (alerts example_store) \<and>
   length (getAlerts example_engine date_time (Some 0) example_store) = 2"
proof -
  have a: "map (\<lambda>r. get_prop r ''title'') (values_of (alerts example_store)) =
      [VStr ''A'', VStr ''B'']"
    by (simp add: values_of_def store_eval)
  note b = alerts_of_example_store
  have c: "getAlerts example_engine date_time None example_store \<noteq>
      values_of (alerts example_store)"
  proof
    assume "getAlerts example_engine date_time None example_store =
      values_of (alerts example_store)"
    then have "map (\<lambda>r. get_prop r ''title'')
        (getAlerts example_engine date_time None example_store) =
      map (\<lambda>r. get_prop r ''title'') (values_of (alerts example_store))" by simp
    then show False unfolding a b by simp
  qed
  have "getAlerts example_engine date_time (Some 0) example_store =
      getAlerts example_engine date_time None example_store"
    by (simp add: getAlerts_def limited_def)
  then have "map (\<lambda>r. get_prop r ''title'')
      (getAlerts example_engine date_time (Some 0) example_store) = [VStr ''B'', VStr ''A'']"
    using b by simp
  then have d: "length (getAlerts example_engine date_time (Some 0) example_store) = 2"
    using length_map[of "\<lambda>r. get_prop r ''title''"
        "getAlerts example_engine date_time (Some 0) example_store"] by simp
  from a b c d show ?thesis by blast
qed

theorem listings_witness:
  "valid_times date_time (values_of (alerts example_store)) \<and>
   valid_times date_time (values_of (incidents example_store)) \<and>
   valid_times date_time (values_of (logs example_store)) \<and>
   valid_times date_time (values_of (llmInsights example_store)) \<and>
   reachable example_store \<and> (0::int) < 1 \<and>
   map (\<lambda>r. get_prop r ''title'') (getAlerts example_engine date_time (Some 1) example_store) =
     [VStr ''B''] \<and>
   getIncidents example_engine date_time (Some 0) example_store =
     getIncidents example_engine date_time None example_store \<and>
   getLogs example_engine date_time (Some 0) example_store =
     getLogs example_engine date_time None example_store \<and>
   getLlmInsights example_engine date_time (Some 0) example_store =
     getLlmInsights example_engine date_time None example_store \<and>
   length (getAgents (snd (createAgent [''name'' \<mapsto> VStr ''Extra''] 0 example_store))) = 5"
proof -
  note t = listings_are_newest_first [of date_time example_store example_engine
      "[''name'' \<mapsto> VStr ''Extra'']" 0]
  note v = valid_times_example_store
  note w = valid_times_example_store_rest
  have p: "(0::int) < 1" by simp
  from t v have "lists_newest_first date_time
      (\<lambda>l. getAlerts example_engine date_time l example_store)
      (values_of (alerts example_store))" by blast
  then have "getAlerts example_engine date_time (Some 1) example_store =
      take (nat 1) (getAlerts example_engine date_time None example_store)"
    unfolding lists_newest_first_def using p by blast
  then have a: "map (\<lambda>r. get_prop r ''title'')
      (getAlerts example_engine date_time (Some 1) example_store) = [VStr ''B'']"
    using alerts_of_example_store by (simp add: take_map[symmetric])
  from t w(1) have "lists_newest_first date_time
      (\<lambda>l. getIncidents example_engine date_time l example_store)
      (values_of (incidents example_store))" by blast
  then have i: "getIncidents example_engine date_time (Some 0) example_store =
     getIncidents example_engine date_time None example_store"
    unfolding lists_newest_first_def by blast
  from t w(2) have "lists_newest_first date_time
      (\<lambda>l. getLogs example_engine date_time l example_store)
      (values_of (logs example_store))" by blast
  then have l: "getLogs example_engine date_time (Some 0) example_store =
     getLogs example_engine date_time None example_store"
    unfolding lists_newest_first_def by blast
  from t w(3) have "lists_newest_first date_time
      (\<lambda>l. getLlmInsights example_engine date_time l example_store)
      (values_of (llmInsights example_store))" by blast
  then have n: "getLlmInsights example_engine date_time (Some 0) example_store =
     getLlmInsights example_engine date_time None example_store"
    unfolding lists_newest_first_def by blast
  from t reachable_example_store
  have "getAgents (snd (createAgent [''name'' \<mapsto> VStr ''Extra''] 0 example_store)) =
      getAgents example_store @ [fst (createAgent [''name'' \<mapsto> VStr ''Extra''] 0 example_store)]"
    by blast
  moreover have "length (getAgents example_store) = 4"
    by (simp add: example_store_eval getAgents_def values_of_def)
  ultimately have b: "length (getAgents (snd (createAgent [''name'' \<mapsto> VStr ''Extra''] 0
      example_store))) = 5" by simp
  from v w reachable_example_store p a i l n b show ?thesis by blast
qed

text \<open>
  A stored timestamp that is not a valid time takes the listing out of this contract: the
  comparator returns \<open>NaN\<close> on that record, and the order of the whole listing is whatever
  the engine makes of it. So it is after an alert with the timestamp \<open>abc\<close> is created.
\<close>

lemma listing_with_invalid_timestamp:
  "getAlerts engine date_time None
     (snd (createAlert [''timestamp'' \<mapsto> VStr ''abc'', ''title'' \<mapsto> VStr ''X''] 0 example_store)) =
   engine (compare_newest date_time)
     (values_of (alerts
       (snd (createAlert [''timestamp'' \<mapsto> VStr ''abc'', ''title'' \<mapsto> VStr ''X''] 0
          example_store))))"
proof -
  have "\<not> valid_times date_time (values_of (alerts
       (snd (createAlert [''timestamp'' \<mapsto> VStr ''abc'', ''title'' \<mapsto> VStr ''X''] 0
          example_store))))"
    by (simp add: valid_times_def getTime_def date_time_def values_of_def store_eval)
  then show ?thesis
    by (simp add: getAlerts_def limited_def sort_newest_first_invalid)
qed

section \<open>Event Store: the frame of update\<close>

lemma spread_unnamed: "patch k = None \<Longrightarrow> spread old patch k = old k"
  by (simp add: spread_def map_add_def)

lemma spread_named: "patch k = Some v \<Longrightarrow> spread old patch k = Some v"
  by (simp add: spread_def map_add_def)

lemma partial_of_unnamed: "partial_of names patch \<Longrightarrow> k \<notin> set names \<Longrightarrow> patch k = None"
  unfolding partial_of_def by blast

lemma spread_keeps:
  assumes "partial_of names patch" "k \<notin> set names"
  shows "get_prop (spread old patch) k = get_prop old k"
proof -
  have "patch k = None" using assms by (rule partial_of_unnamed)
  then show ?thesis by (simp add: get_prop_def spread_unnamed)
qed

lemma update_frame_updateAgent:
  assumes "getAgent i s = Some old"
  shows "update_frame updateAgent agents (\<lambda>s. s\<lparr>agents := []\<rparr>) insertAgent_fields i old patch s"
proof -
  have m: "map_of (agents s) i = Some old" using assms by (simp add: getAgent_def)
  have k: "''id'' \<notin> set insertAgent_fields" "''createdAt'' \<notin> set insertAgent_fields"
    by (simp_all add: insertAgent_fields_def)
  show ?thesis
    unfolding update_frame_def updateAgent_def
    using m spread_keeps[OF _ k(1)] spread_keeps[OF _ k(2)]
    by (simp add: Let_def spread_unnamed spread_named update_conv' keys_update_present)
qed


lemma update_frame_updateAlert:
  assumes "getAlert i s = Some old"
  shows "update_frame updateAlert alerts (\<lambda>s. s\<lparr>alerts := []\<rparr>) insertAlert_fields i old patch s"
proof -
  have m: "map_of (alerts s) i = Some old" using assms by (simp add: getAlert_def)
  have k: "''id'' \<notin> set insertAlert_fields" "''createdAt'' \<notin> set insertAlert_fields"
    by (simp_all add: insertAlert_fields_def)
  show ?thesis
    unfolding update_frame_def updateAlert_def
    using m spread_keeps[OF _ k(1)] spread_keeps[OF _ k(2)]
    by (simp add: Let_def spread_unnamed spread_named update_conv' keys_update_present)
qed

lemma update_frame_updateIncident:
  assumes "getIncident i s = Some old"
  shows "update_frame updateIncident incidents (\<lambda>s. s\<lparr>incidents := []\<rparr>) insertIncident_fields i old patch s"
proof -
  have m: "map_of (incidents s) i = Some old" using assms by (simp add: getIncident_def)
  have k: "''id'' \<notin> set insertIncident_fields" "''createdAt'' \<notin> set insertIncident_fields"
    by (simp_all add: insertIncident_fields_def)
  show ?thesis
    unfolding update_frame_def updateIncident_def
    using m spread_keeps[OF _ k(1)] spread_keeps[OF _ k(2)]
    by (simp add: Let_def spread_unnamed spread_named update_conv' keys_update_present)
qed

lemma update_frame_updateResponseAction:
  assumes "getResponseAction i s = Some old"
  shows "update_frame updateResponseAction responseActions (\<lambda>s. s\<lparr>responseActions := []\<rparr>) insertResponseAction_fields i old patch s"
proof -
  have m: "map_of (responseActions s) i = Some old" using assms by (simp add: getResponseAction_def)
  have k: "''id'' \<notin> set insertResponseAction_fields" "''createdAt'' \<notin> set insertResponseAction_fields"
    by (simp_all add: insertResponseAction_fields_def)
  show ?thesis
    unfolding update_frame_def updateResponseAction_def
    using m spread_keeps[OF _ k(1)] spread_keeps[OF _ k(2)]
    by (simp add: Let_def spread_unnamed spread_named update_conv' keys_update_present)
qed

lemma update_frameD:
  assumes "update_frame update tbl rest names i old patch s"
  shows "\<exists>new s'. update i patch s = (Some new, s') \<and>
           (\<forall>k. patch k = None \<longrightarrow> new k = old k) \<and>
           (\<forall>k v. patch k = Some v \<longrightarrow> new k = Some v) \<and>
           (partial_of names patch \<longrightarrow>
              get_prop new ''id'' = get_prop old ''id'' \<and>
              get_prop new ''createdAt'' = get_prop old ''createdAt'')"
proof (cases "update i patch s")
  case (Pair r s')
  show ?thesis
  proof (cases r)
    case None
    with Pair assms show ?thesis by (simp add: update_frame_def)
  next
    case (Some new)
    with Pair assms show ?thesis by (simp add: update_frame_def)
  qed
qed

text \<open>
  C10 (as amended). For each entity kind with an \<open>update\<close> and every id the table holds,
  \<open>update(id, patch)\<close> returns and stores, under the same key and at the same position, a
  record in which every property the patch does not name is unchanged and every property it
  names has the patch's value; the rest of the store is untouched. The properties \<open>id\<close> and
  \<open>createdAt\<close> are unchanged for every patch that does not name them, which is every patch
  of the declared type \<open>Partial<Insert...>\<close>.
\<close>

theorem update_changes_named_fields_only:
  "(getAgent i s = Some old \<longrightarrow>
      update_frame updateAgent agents (\<lambda>s. s\<lparr>agents := []\<rparr>) insertAgent_fields
        i old patch s) \<and>
   (getAlert i s = Some old \<longrightarrow>
      update_frame updateAlert alerts (\<lambda>s. s\<lparr>alerts := []\<rparr>) insertAlert_fields
        i old patch s) \<and>
   (getIncident i s = Some old \<longrightarrow>
      update_frame updateIncident incidents (\<lambda>s. s\<lparr>incidents := []\<rparr>) insertIncident_fields
        i old patch s) \<and>
   (getResponseAction i s = Some old \<longrightarrow>
      update_frame updateResponseAction responseActions (\<lambda>s. s\<lparr>responseActions := []\<rparr>)
        insertResponseAction_fields i old patch s)"
  by (intro conjI impI update_frame_updateAgent update_frame_updateAlert
      update_frame_updateIncident update_frame_updateResponseAction)

theorem update_changes_named_fields_witness:
  "map_option (\<lambda>r. (get_prop r ''name'', get_prop r ''id'')) (getAgent 1 example_store) =
     Some (VStr ''Network Monitor'', VNum 1) \<and>
   partial_of insertAgent_fields [''status'' \<mapsto> VStr ''error'', ''lastActive'' \<mapsto> VDate 7] \<and>
   map_option (\<lambda>r. (get_prop r ''status'', get_prop r ''name'', get_prop r ''id''))
     (fst (updateAgent 1 [''status'' \<mapsto> VStr ''error'', ''lastActive'' \<mapsto> VDate 7] example_store)) =
     Some (VStr ''error'', VStr ''Network Monitor'', VNum 1) \<and>
   map_option (\<lambda>r. (get_prop r ''title'', get_prop r ''id'')) (getAlert 9 example_store) =
     Some (VStr ''A'', VNum 9) \<and>
   partial_of insertAlert_fields [''status'' \<mapsto> VStr ''resolved''] \<and>
   map_option (\<lambda>r. (get_prop r ''status'', get_prop r ''title'', get_prop r ''id''))
     (fst (updateAlert 9 [''status'' \<mapsto> VStr ''resolved''] example_store)) =
     Some (VStr ''resolved'', VStr ''A'', VNum 9) \<and>
   map_option (\<lambda>r. (get_prop r ''type'', get_prop r ''id'')) (getIncident 11 example_store) =
     Some (VStr ''malware'', VNum 11) \<and>
   partial_of insertIncident_fields [''status'' \<mapsto> VStr ''closed''] \<and>
   map_option (\<lambda>r. (get_prop r ''status'', get_prop r ''type'', get_prop r ''id''))
     (fst (updateIncident 11 [''status'' \<mapsto> VStr ''closed''] example_store)) =
     Some (VStr ''closed'', VStr ''malware'', VNum 11) \<and>
   map_option (\<lambda>r. (get_prop r ''trigger'', get_prop r ''id'')) (getResponseAction 7 example_store) =
     Some (VStr ''Brute Force Detection'', VNum 7) \<and>
   partial_of insertResponseAction_fields [''status'' \<mapsto> VStr ''enabled''] \<and>
   map_option (\<lambda>r. (get_prop r ''status'', get_prop r ''trigger'', get_prop r ''id''))
     (fst (updateResponseAction 7 [''status'' \<mapsto> VStr ''enabled''] example_store)) =
     Some (VStr ''enabled'', VStr ''Brute Force Detection'', VNum 7)"
proof -
  let ?pa = "[''status'' \<mapsto> VStr ''error'', ''lastActive'' \<mapsto> VDate 7]"
  let ?pb = "[''status'' \<mapsto> VStr ''resolved'']"
  let ?pc = "[''status'' \<mapsto> VStr ''closed'']"
  let ?pd = "[''status'' \<mapsto> VStr ''enabled'']"
  have p1: "partial_of insertAgent_fields ?pa"
    by (simp add: partial_of_def insertAgent_fields_def)
  have o1: "map_option (\<lambda>r. (get_prop r ''name'', get_prop r ''id'')) (getAgent 1 example_store) =
     Some (VStr ''Network Monitor'', VNum 1)"
    by (simp add: getAgent_def store_eval)
  then obtain old1 where g1: "getAgent 1 example_store = Some old1"
    and q1: "get_prop old1 ''name'' = VStr ''Network Monitor''" "get_prop old1 ''id'' = VNum 1"
    by (cases "getAgent 1 example_store") auto
  from g1 update_changes_named_fields_only [of 1 example_store old1 ?pa]
  have "update_frame updateAgent agents (\<lambda>s. s\<lparr>agents := []\<rparr>) insertAgent_fields
      1 old1 ?pa example_store" by blast
  from update_frameD[OF this] obtain new1 s1 where
    u1: "updateAgent 1 ?pa example_store = (Some new1, s1)"
    and un1: "\<forall>k. ?pa k = None \<longrightarrow> new1 k = old1 k"
    and na1: "\<forall>k v. ?pa k = Some v \<longrightarrow> new1 k = Some v"
    and ty1: "partial_of insertAgent_fields ?pa \<longrightarrow>
       get_prop new1 ''id'' = get_prop old1 ''id'' \<and>
       get_prop new1 ''createdAt'' = get_prop old1 ''createdAt''"
    by blast
  have "new1 ''status'' = Some (VStr ''error'')" using na1 by simp
  then have a1: "get_prop new1 ''status'' = VStr ''error''" by (simp add: get_prop_def)
  have "new1 ''name'' = old1 ''name''" using un1 by simp
  then have b1: "get_prop new1 ''name'' = VStr ''Network Monitor''" using q1(1) by (simp add: get_prop_def)
  have c1: "get_prop new1 ''id'' = VNum 1" using ty1 p1 q1(2) by simp
  have r1: "map_option (\<lambda>r. (get_prop r ''status'', get_prop r ''name'', get_prop r ''id''))
     (fst (updateAgent 1 ?pa example_store)) = Some (VStr ''error'', VStr ''Network Monitor'', VNum 1)"
    unfolding u1 using a1 b1 c1 by simp
  have p2: "partial_of insertAlert_fields ?pb"
    by (simp add: partial_of_def insertAlert_fields_def)
  have o2: "map_option (\<lambda>r. (get_prop r ''title'', get_prop r ''id'')) (getAlert 9 example_store) =
     Some (VStr ''A'', VNum 9)"
    by (simp add: getAlert_def store_eval)
  then obtain old2 where g2: "getAlert 9 example_store = Some old2"
    and q2: "get_prop old2 ''title'' = VStr ''A''" "get_prop old2 ''id'' = VNum 9"
    by (cases "getAlert 9 example_store") auto
  from g2 update_changes_named_fields_only [of 9 example_store old2 ?pb]
  have "update_frame updateAlert alerts (\<lambda>s. s\<lparr>alerts := []\<rparr>) insertAlert_fields
      9 old2 ?pb example_store" by blast
  from update_frameD[OF this] obtain new2 s2 where
    u2: "updateAlert 9 ?pb example_store = (Some new2, s2)"
    and un2: "\<forall>k. ?pb k = None \<longrightarrow> new2 k = old2 k"
    and na2: "\<forall>k v. ?pb k = Some v \<longrightarrow> new2 k = Some v"
    and ty2: "partial_of insertAlert_fields ?pb \<longrightarrow>
       get_prop new2 ''id'' = get_prop old2 ''id'' \<and>
       get_prop new2 ''createdAt'' = get_prop old2 ''createdAt''"
    by blast
  have "new2 ''status'' = Some (VStr ''resolved'')" using na2 by simp
  then have a2: "get_prop new2 ''status'' = VStr ''resolved''" by (simp add: get_prop_def)
  have "new2 ''title'' = old2 ''title''" using un2 by simp
  then have b2: "get_prop new2 ''title'' = VStr ''A''" using q2(1) by (simp add: get_prop_def)
  have c2: "get_prop new2 ''id'' = VNum 9" using ty2 p2 q2(2) by simp
  have r2: "map_option (\<lambda>r. (get_prop r ''status'', get_prop r ''title'', get_prop r ''id''))
     (fst (updateAlert 9 ?pb example_store)) = Some (VStr ''resolved'', VStr ''A'', VNum 9)"
    unfolding u2 using a2 b2 c2 by simp
  have p3: "partial_of insertIncident_fields ?pc"
    by (simp add: partial_of_def insertIncident_fields_def)
  have o3: "map_option (\<lambda>r. (get_prop r ''type'', get_prop r ''id'')) (getIncident 11 example_store) =
     Some (VStr ''malware'', VNum 11)"
    by (simp add: getIncident_def store_eval)
  then obtain old3 where g3: "getIncident 11 example_store = Some old3"
    and q3: "get_prop old3 ''type'' = VStr ''malware''" "get_prop old3 ''id'' = VNum 11"
    by (cases "getIncident 11 example_store") auto
  from g3 update_changes_named_fields_only [of 11 example_store old3 ?pc]
  have "update_frame updateIncident incidents (\<lambda>s. s\<lparr>incidents := []\<rparr>) insertIncident_fields
      11 old3 ?pc example_store" by blast
  from update_frameD[OF this] obtain new3 s3 where
    u3: "updateIncident 11 ?pc example_store = (Some new3, s3)"
    and un3: "\<forall>k. ?pc k = None \<longrightarrow> new3 k = old3 k"
    and na3: "\<forall>k v. ?pc k = Some v \<longrightarrow> new3 k = Some v"
    and ty3: "partial_of insertIncident_fields ?pc \<longrightarrow>
       get_prop new3 ''id'' = get_prop old3 ''id'' \<and>
       get_prop new3 ''createdAt'' = get_prop old3 ''createdAt''"
    by blast
  have "new3 ''status'' = Some (VStr ''closed'')" using na3 by simp
  then have a3: "get_prop new3 ''status'' = VStr ''closed''" by (simp add: get_prop_def)
  have "new3 ''type'' = old3 ''type''" using un3 by simp
  then have b3: "get_prop new3 ''type'' = VStr ''malware''" using q3(1) by (simp add: get_prop_def)
  have c3: "get_prop new3 ''id'' = VNum 11" using ty3 p3 q3(2) by simp
  have r3: "map_option (\<lambda>r. (get_prop r ''status'', get_prop r ''type'', get_prop r ''id''))
     (fst (updateIncident 11 ?pc example_store)) = Some (VStr ''closed'', VStr ''malware'', VNum 11)"
    unfolding u3 using a3 b3 c3 by simp
  have p4: "partial_of insertResponseAction_fields ?pd"
    by (simp add: partial_of_def insertResponseAction_fields_def)
  have o4: "map_option (\<lambda>r. (get_prop r ''trigger'', get_prop r ''id'')) (getResponseAction 7 example_store) =
     Some (VStr ''Brute Force Detection'', VNum 7)"
    by (simp add: getResponseAction_def store_eval)
  then obtain old4 where g4: "getResponseAction 7 example_store = Some old4"
    and q4: "get_prop old4 ''trigger'' = VStr ''Brute Force Detection''" "get_prop old4 ''id'' = VNum 7"
    by (cases "getResponseAction 7 example_store") auto
  from g4 update_changes_named_fields_only [of 7 example_store old4 ?pd]
  have "update_frame updateResponseAction responseActions (\<lambda>s. s\<lparr>responseActions := []\<rparr>) insertResponseAction_fields
      7 old4 ?pd example_store" by blast
  from update_frameD[OF this] obtain new4 s4 where
    u4: "updateResponseAction 7 ?pd example_store = (Some new4, s4)"
    and un4: "\<forall>k. ?pd k = None \<longrightarrow> new4 k = old4 k"
    and na4: "\<forall>k v. ?pd k = Some v \<longrightarrow> new4 k = Some v"
    and ty4: "partial_of insertResponseAction_fields ?pd \<longrightarrow>
       get_prop new4 ''id'' = get_prop old4 ''id'' \<and>
       get_prop new4 ''createdAt'' = get_prop old4 ''createdAt''"
    by blast
  have "new4 ''status'' = Some (VStr ''enabled'')" using na4 by simp
  then have a4: "get_prop new4 ''status'' = VStr ''enabled''" by (simp add: get_prop_def)
  have "new4 ''trigger'' = old4 ''trigger''" using un4 by simp
  then have b4: "get_prop new4 ''trigger'' = VStr ''Brute Force Detection''" using q4(1) by (simp add: get_prop_def)
  have c4: "get_prop new4 ''id'' = VNum 7" using ty4 p4 q4(2) by simp
  have r4: "map_option (\<lambda>r. (get_prop r ''status'', get_prop r ''trigger'', get_prop r ''id''))
     (fst (updateResponseAction 7 ?pd example_store)) = Some (VStr ''enabled'', VStr ''Brute Force Detection'', VNum 7)"
    unfolding u4 using a4 b4 c4 by simp
  from o1 p1 r1 o2 p2 r2 o3 p3 r3 o4 p4 r4 show ?thesis by blast
qed

text \<open>
  C10 as stated fails for a patch that names \<open>id\<close> or \<open>createdAt\<close>, as the body of a
  \<open>PATCH\<close> request can (the route passes it on as it is): updating response action 7 with
  such a patch returns and stores, still under key 7, a record whose \<open>id\<close> is 999 and whose
  \<open>createdAt\<close> is the text of the patch.
\<close>

theorem patch_naming_id_counterexample:
  "map_option (\<lambda>r. (get_prop r ''id'', get_prop r ''createdAt''))
     (getResponseAction 7 example_store) =
     Some (VNum 7, VDate 0) \<and>
   map_option (\<lambda>r. (get_prop r ''id'', get_prop r ''createdAt''))
     (fst (updateResponseAction 7
        [''id'' \<mapsto> VNum 999, ''createdAt'' \<mapsto> VStr ''2020-01-01'', ''isAutomated'' \<mapsto> VBool True]
        example_store)) =
     Some (VNum 999, VStr ''2020-01-01'') \<and>
   map_option (\<lambda>r. (get_prop r ''id'', get_prop r ''createdAt''))
     (getResponseAction 7 (snd (updateResponseAction 7
        [''id'' \<mapsto> VNum 999, ''createdAt'' \<mapsto> VStr ''2020-01-01'', ''isAutomated'' \<mapsto> VBool True]
        example_store))) =
     Some (VNum 999, VStr ''2020-01-01'')"
  by (simp add: getResponseAction_def updateResponseAction_def Let_def update_conv' store_eval)

section \<open>The external classifier\<close>

text \<open>
  C5. For every input text (the text only travels in the request and does not enter the
  result), whenever the classifier call fails (the request throws, as on a timeout or an
  exhausted quota, or the response is malformed: no choice, content that is not JSON, a
  \<open>null\<close>), \<open>analyzeThreatWithLLM\<close> returns the fixed result with severity \<open>medium\<close>,
  confidence \<open>0\<close> and the placeholder analysis; the failure is caught inside the function,
  whose result is always a value.
\<close>

theorem classifier_failure_gives_fallback:
  assumes "classifier_fails parse response"
  shows "analyzeThreatWithLLM parse toNumber response = fallback_analysis \<and>
         severity (analyzeThreatWithLLM parse toNumber response) = VStr ''medium'' \<and>
         confidence (analyzeThreatWithLLM parse toNumber response) = Some 0 \<and>
         analysis (analyzeThreatWithLLM parse toNumber response) =
           VStr ''Failed to analyze threat with LLM. API may be unavailable.''"
proof -
  have "analysis_of_response parse toNumber response = Throws"
  proof (cases response)
    case Throws
    then show ?thesis by (simp add: analysis_of_response_def)
  next
    case (Returns choices)
    show ?thesis
    proof (cases choices)
      case Nil
      with Returns show ?thesis by (simp add: analysis_of_response_def)
    next
      case (Cons content rest)
      with Returns assms
      have "parse (content_text content) = Throws \<or> parse (content_text content) = Returns VNull"
        by (simp add: classifier_fails_def)
      then show ?thesis
        using Returns Cons by (auto simp add: analysis_of_response_def)
    qed
  qed
  then have "analyzeThreatWithLLM parse toNumber response = fallback_analysis"
    by (simp add: analyzeThreatWithLLM_def)
  then show ?thesis by (simp add: fallback_analysis_def)
qed

theorem classifier_failure_witness:
  "classifier_fails example_parse Throws \<and>
   analyzeThreatWithLLM example_parse example_toNumber Throws = fallback_analysis \<and>
   classifier_fails example_parse (Returns [Some ''I cannot help with that'']) \<and>
   confidence (analyzeThreatWithLLM example_parse example_toNumber
     (Returns [Some ''I cannot help with that''])) = Some 0 \<and>
   classifier_fails example_parse (Returns [None]) \<and>
   severity (analyzeThreatWithLLM example_parse example_toNumber (Returns [None])) =
     VStr ''medium''"
proof -
  have a: "classifier_fails example_parse Throws"
    by (simp add: classifier_fails_def)
  have b: "classifier_fails example_parse (Returns [Some ''I cannot help with that''])"
    by (simp add: classifier_fails_def example_parse_def content_text_def)
  have c: "classifier_fails example_parse (Returns [None])"
    by (simp add: classifier_fails_def example_parse_def content_text_def)
  from a b c
    classifier_failure_gives_fallback [OF a, of example_toNumber]
    classifier_failure_gives_fallback [OF b, of example_toNumber]
    classifier_failure_gives_fallback [OF c, of example_toNumber]
  show ?thesis by blast
qed

text \<open>
  A response whose content is JSON but lacks the expected properties is not a failure of
  the call: each property gets its own default, and the confidence is 0.5.
\<close>

lemma incomplete_response_uses_field_defaults:
  "analyzeThreatWithLLM example_parse example_toNumber (Returns [Some ''{}'']) =
   \<lparr>severity = VStr ''medium'', analysis = VStr ''No analysis provided'',
     recommendation = VStr ''No recommendation provided'', confidence = Some (1/2)\<rparr>"
  by (simp add: analyzeThreatWithLLM_def analysis_of_response_def example_parse_def
      content_text_def js_or_def clamp01_def example_toNumber_def field_def read_def)

section \<open>The Context Cache\<close>

text \<open>
  C6. Whenever the cache's connection is not established (\<open>connected\<close> is false), each of
  the eight operations \<open>storeContext\<close>, \<open>getContext\<close>, \<open>updateAgentStatus\<close>, \<open>getAgentStatus\<close>,
  \<open>publish\<close>, \<open>subscribe\<close>, \<open>getAllContexts\<close> and \<open>getAllAgentStatuses\<close> does nothing and
  returns its empty result: \<open>null\<close>, the empty record, or nothing. No operation has a
  failing result at all (every throw below it is caught), so a caller never fails
  because of the cache.
\<close>

theorem disconnected_cache_is_unavailable:
  assumes "\<not> connected r"
  shows "unavailable r"
  using assms
  by (simp add: unavailable_def storeContext_def getContext_def updateAgentStatus_def
      getAgentStatus_def publish_def subscribe_def getAllContexts_def
      getAllAgentStatuses_def)

theorem disconnected_cache_witness:
  "\<not> connected (new_RedisMCP False False) \<and>
   storeContext example_stringify ''threats'' (VObj []) (new_RedisMCP False False) =
     new_RedisMCP False False \<and>
   getContext example_net example_parse ''threats'' (new_RedisMCP False False) = VNull \<and>
   updateAgentStatus ''1'' ''active'' (new_RedisMCP False False) = new_RedisMCP False False \<and>
   getAgentStatus example_net ''1'' (new_RedisMCP False False) = None \<and>
   publish example_stringify example_parse ''alerts'' (VObj []) (new_RedisMCP False False) = [] \<and>
   subscribe example_net ''alerts'' 0 (new_RedisMCP False False) = new_RedisMCP False False \<and>
   getAllContexts example_net example_parse (new_RedisMCP False False) = Map.empty \<and>
   getAllAgentStatuses example_net (new_RedisMCP False False) = Map.empty"
proof -
  have h: "\<not> connected (new_RedisMCP False False)"
    by (simp add: new_RedisMCP_def)
  from disconnected_cache_is_unavailable [OF h] h show ?thesis
    unfolding unavailable_def by blast
qed

text \<open>For contrast, the same reads on a connected networked cache return what the
  network answers.\<close>

lemma connected_cache_reads:
  "getAgentStatus example_net ''1'' (on_connect (new_RedisMCP False False)) = Some ''active'' \<and>
   getAllAgentStatuses example_net (on_connect (new_RedisMCP False False)) = [''1'' \<mapsto> ''active'']"
  by (simp add: getAgentStatus_def getAllAgentStatuses_def on_connect_def new_RedisMCP_def
      client_get_def client_keys_def example_net_def agentStatusPrefix_def starts_with_def
      assign_def)

section \<open>The Agent Supervisor\<close>

lemma starts_with_nonempty: "starts_with s ''{'' \<Longrightarrow> s \<noteq> []"
  by (auto simp add: starts_with_def)

text \<open>
  C1 (as amended). A chunk of worker output that is blank is dropped. One that, trimmed,
  does not start with an opening brace is stored verbatim as an \<open>info\<close> log attributed to
  the agent. One that starts with a brace is parsed: if it parses to an object whose \<open>type\<close>
  is \<open>log\<close>, \<open>alert\<close> or \<open>incident\<close>, exactly the corresponding create call is made, with the
  line's fields (and their defaults) and the agent's name as source; if it does not parse,
  or its \<open>type\<close> is anything else, no store call is made at all.
\<close>

theorem worker_output_handling:
  "(trim output = [] \<longrightarrow> handleAgentOutput parse name now rnd output = []) \<and>
   (trim output \<noteq> [] \<and> \<not> starts_with (trim output) ''{'' \<longrightarrow>
      handleAgentOutput parse name now rnd output = [verbatim_info_log name now output]) \<and>
   (starts_with (trim output) ''{'' \<and> parse output = Throws \<longrightarrow>
      handleAgentOutput parse name now rnd output = []) \<and>
   (starts_with (trim output) ''{'' \<and> parse output = Returns (VObj kvs) \<longrightarrow>
      (field kvs ''type'' = VStr ''log'' \<longrightarrow>
         handleAgentOutput parse name now rnd output =
           [CreateLog
             [''level'' \<mapsto> js_or (field kvs ''level'') (VStr ''info''),
              ''message'' \<mapsto> field kvs ''message'',
              ''source'' \<mapsto> VStr name,
              ''timestamp'' \<mapsto> VDate now,
              ''metadata'' \<mapsto> js_or (field kvs ''metadata'') (VObj [])]]) \<and>
      (field kvs ''type'' = VStr ''alert'' \<longrightarrow>
         handleAgentOutput parse name now rnd output =
           [CreateAlert
             [''severity'' \<mapsto> js_or (field kvs ''severity'') (VStr ''medium''),
              ''title'' \<mapsto> field kvs ''title'',
              ''description'' \<mapsto> field kvs ''description'',
              ''source'' \<mapsto> VStr name,
              ''timestamp'' \<mapsto> VDate now,
              ''status'' \<mapsto> VStr ''new'',
              ''metadata'' \<mapsto> js_or (field kvs ''metadata'') (VObj [])]]) \<and>
      (field kvs ''type'' = VStr ''incident'' \<longrightarrow>
         handleAgentOutput parse name now rnd output =
           [CreateIncident
             [''incidentId'' \<mapsto> VStr (''INC-'' @ string_of_nat rnd),
              ''type'' \<mapsto> field kvs ''incidentType'',
              ''status'' \<mapsto> VStr ''open'',
              ''source'' \<mapsto> VStr name,
              ''timestamp'' \<mapsto> VDate now,
              ''metadata'' \<mapsto> js_or (field kvs ''metadata'') (VObj [])]]) \<and>
      (field kvs ''type'' \<noteq> VStr ''log'' \<and> field kvs ''type'' \<noteq> VStr ''alert'' \<and>
       field kvs ''type'' \<noteq> VStr ''incident'' \<longrightarrow>
         handleAgentOutput parse name now rnd output = []))"
proof (intro conjI impI)
  show "handleAgentOutput parse name now rnd output = []" if "trim output = []"
    using that by (simp add: handleAgentOutput_def)
  show "handleAgentOutput parse name now rnd output = [verbatim_info_log name now output]"
    if "trim output \<noteq> [] \<and> \<not> starts_with (trim output) ''{''"
    using that by (simp add: handleAgentOutput_def verbatim_info_log_def)
  show "handleAgentOutput parse name now rnd output = []"
    if "starts_with (trim output) ''{'' \<and> parse output = Throws"
    using that starts_with_nonempty[of "trim output"] by (simp add: handleAgentOutput_def)
next
  assume h: "starts_with (trim output) ''{'' \<and> parse output = Returns (VObj kvs)"
  then have ne: "trim output \<noteq> []" using starts_with_nonempty by blast
  note ev = handleAgentOutput_def read_def
  {
    assume "field kvs ''type'' = VStr ''log''"
    then show "handleAgentOutput parse name now rnd output =
           [CreateLog
             [''level'' \<mapsto> js_or (field kvs ''level'') (VStr ''info''),
              ''message'' \<mapsto> field kvs ''message'',
              ''source'' \<mapsto> VStr name,
              ''timestamp'' \<mapsto> VDate now,
              ''metadata'' \<mapsto> js_or (field kvs ''metadata'') (VObj [])]]"
      using h ne by (simp add: ev)
  }
  {
    assume "field kvs ''type'' = VStr ''alert''"
    then show "handleAgentOutput parse name now rnd output =
           [CreateAlert
             [''severity'' \<mapsto> js_or (field kvs ''severity'') (VStr ''medium''),
              ''title'' \<mapsto> field kvs ''title'',
              ''description'' \<mapsto> field kvs ''description'',
              ''source'' \<mapsto> VStr name,
              ''timestamp'' \<mapsto> VDate now,
              ''status'' \<mapsto> VStr ''new'',
              ''metadata'' \<mapsto> js_or (field kvs ''metadata'') (VObj [])]]"
      using h ne by (simp add: ev)
  }
  {
    assume "field kvs ''type'' = VStr ''incident''"
    then show "handleAgentOutput parse name now rnd output =
           [CreateIncident
             [''incidentId'' \<mapsto> VStr (''INC-'' @ string_of_nat rnd),
              ''type'' \<mapsto> field kvs ''incidentType'',
              ''status'' \<mapsto> VStr ''open'',
              ''source'' \<mapsto> VStr name,
              ''timestamp'' \<mapsto> VDate now,
              ''metadata'' \<mapsto> js_or (field kvs ''metadata'') (VObj [])]]"
      using h ne by (simp add: ev)
  }
  {
    assume "field kvs ''type'' \<noteq> VStr ''log'' \<and> field kvs ''type'' \<noteq> VStr ''alert'' \<and>
       field kvs ''type'' \<noteq> VStr ''incident''"
    then show "handleAgentOutput parse name now rnd output = []"
      using h ne by (simp add: ev)
  }
qed


lemmas output_eval = handleAgentOutput_def trim_def is_space_def starts_with_def
  example_parse_def field_def js_or_def read_def

text \<open>
  C1 as stated fails for lines that begin with a brace: a line that is not JSON, and a
  line that is JSON with an unrecognised \<open>type\<close>, produce no store call, where the claim has
  them stored verbatim as an \<open>info\<close> log.
\<close>

theorem unrecognized_line_counterexample:
  \<open>example_parse ''{oops'' = Throws \<and>
   handleAgentOutput example_parse ''Log Parser'' 7 1234 ''{oops'' = [] \<and>
   handleAgentOutput example_parse ''Log Parser'' 7 1234 ''{oops'' \<noteq>
     [verbatim_info_log ''Log Parser'' 7 ''{oops''] \<and>
   example_parse ''{"type":"metric","value":3}'' =
     Returns (VObj [(''type'', VStr ''metric''), (''value'', VNum 3)]) \<and>
   handleAgentOutput example_parse ''Log Parser'' 7 1234 ''{"type":"metric","value":3}'' = [] \<and>
   handleAgentOutput example_parse ''Log Parser'' 7 1234 ''{"type":"metric","value":3}'' \<noteq>
     [verbatim_info_log ''Log Parser'' 7 ''{"type":"metric","value":3}'']\<close>
  by (simp add: output_eval)

theorem worker_output_witness:
  \<open>trim ''  '' = [] \<and>
   handleAgentOutput example_parse ''Log Parser'' 7 1234 ''  '' = [] \<and>
   trim ''scan done'' \<noteq> [] \<and> \<not> starts_with (trim ''scan done'') ''{'' \<and>
   handleAgentOutput example_parse ''Log Parser'' 7 1234 ''scan done'' =
     [verbatim_info_log ''Log Parser'' 7 ''scan done''] \<and>
   starts_with (trim ''{oops'') ''{'' \<and> example_parse ''{oops'' = Throws \<and>
   handleAgentOutput example_parse ''Log Parser'' 7 1234 ''{oops'' = [] \<and>
   starts_with (trim ''{"type":"log","level":"warning","message":"disk full"}'') ''{'' \<and>
   example_parse ''{"type":"log","level":"warning","message":"disk full"}'' =
     Returns (VObj [(''type'', VStr ''log''), (''level'', VStr ''warning''), (''message'', VStr ''disk full'')]) \<and>
   handleAgentOutput example_parse ''Log Parser'' 7 1234
       ''{"type":"log","level":"warning","message":"disk full"}'' =
     [CreateLog
       [''level'' \<mapsto> VStr ''warning'', ''message'' \<mapsto> VStr ''disk full'',
        ''source'' \<mapsto> VStr ''Log Parser'', ''timestamp'' \<mapsto> VDate 7, ''metadata'' \<mapsto> VObj []]] \<and>
   starts_with (trim ''{"type":"alert","severity":"critical","title":"X","description":"Y"}'') ''{'' \<and>
   example_parse ''{"type":"alert","severity":"critical","title":"X","description":"Y"}'' =
     Returns (VObj [(''type'', VStr ''alert''), (''severity'', VStr ''critical''),
               (''title'', VStr ''X''), (''description'', VStr ''Y'')]) \<and>
   handleAgentOutput example_parse ''Log Parser'' 7 1234
       ''{"type":"alert","severity":"critical","title":"X","description":"Y"}'' =
     [CreateAlert
       [''severity'' \<mapsto> VStr ''critical'', ''title'' \<mapsto> VStr ''X'',
        ''description'' \<mapsto> VStr ''Y'', ''source'' \<mapsto> VStr ''Log Parser'',
        ''timestamp'' \<mapsto> VDate 7, ''status'' \<mapsto> VStr ''new'', ''metadata'' \<mapsto> VObj []]] \<and>
   starts_with (trim ''{"type":"incident","incidentType":"malware"}'') ''{'' \<and>
   example_parse ''{"type":"incident","incidentType":"malware"}'' =
     Returns (VObj [(''type'', VStr ''incident''), (''incidentType'', VStr ''malware'')]) \<and>
   handleAgentOutput example_parse ''Log Parser'' 7 1234
       ''{"type":"incident","incidentType":"malware"}'' =
     [CreateIncident
       [''incidentId'' \<mapsto> VStr ''INC-1234'', ''type'' \<mapsto> VStr ''malware'',
        ''status'' \<mapsto> VStr ''open'', ''source'' \<mapsto> VStr ''Log Parser'',
        ''timestamp'' \<mapsto> VDate 7, ''metadata'' \<mapsto> VObj []]] \<and>
   starts_with (trim ''{"type":"metric","value":3}'') ''{'' \<and>
   example_parse ''{"type":"metric","value":3}'' =
     Returns (VObj [(''type'', VStr ''metric''), (''value'', VNum 3)]) \<and>
   handleAgentOutput example_parse ''Log Parser'' 7 1234
       ''{"type":"metric","value":3}'' =
     []\<close>
proof -
  let ?log = \<open>''{"type":"log","level":"warning","message":"disk full"}''\<close>
  let ?klog = "[(''type'', VStr ''log''), (''level'', VStr ''warning''), (''message'', VStr ''disk full'')]"
  let ?alert = \<open>''{"type":"alert","severity":"critical","title":"X","description":"Y"}''\<close>
  let ?kalert = "[(''type'', VStr ''alert''), (''severity'', VStr ''critical''),
               (''title'', VStr ''X''), (''description'', VStr ''Y'')]"
  let ?incident = \<open>''{"type":"incident","incidentType":"malware"}''\<close>
  let ?kincident = "[(''type'', VStr ''incident''), (''incidentType'', VStr ''malware'')]"
  let ?metric = \<open>''{"type":"metric","value":3}''\<close>
  let ?kmetric = "[(''type'', VStr ''metric''), (''value'', VNum 3)]"
  have a: "trim ''  '' = []" by (simp add: trim_def is_space_def)
  have b: "trim ''scan done'' \<noteq> [] \<and> \<not> starts_with (trim ''scan done'') ''{''"
    by (simp add: trim_def is_space_def starts_with_def)
  have c: "starts_with (trim ''{oops'') ''{'' \<and> example_parse ''{oops'' = Throws"
    by (simp add: trim_def is_space_def starts_with_def example_parse_def)
  note t1 = worker_output_handling
    [of "''  ''" example_parse "''Log Parser''" 7 1234]
  note t2 = worker_output_handling
    [of "''scan done''" example_parse "''Log Parser''" 7 1234]
  note t3 = worker_output_handling
    [of "''{oops''" example_parse "''Log Parser''" 7 1234]
  from a t1 have a': "handleAgentOutput example_parse ''Log Parser'' 7 1234 ''  '' = []"
    by blast
  from b t2 have b': "handleAgentOutput example_parse ''Log Parser'' 7 1234 ''scan done'' =
     [verbatim_info_log ''Log Parser'' 7 ''scan done'']" by blast
  from c t3 have c': "handleAgentOutput example_parse ''Log Parser'' 7 1234 ''{oops'' = []"
    by blast
  have p_log: "starts_with (trim ?log) ''{'' \<and> example_parse ?log = Returns (VObj ?klog)"
    by (simp add: trim_def is_space_def starts_with_def example_parse_def)
  have y_log: "field ?klog ''type'' = VStr ''log''" by (simp add: field_def)
  from p_log y_log worker_output_handling
    [of ?log example_parse "''Log Parser''" 7 1234 ?klog]
  have "handleAgentOutput example_parse ''Log Parser'' 7 1234 ?log =
     [CreateLog
       [''level'' \<mapsto> js_or (field ?klog ''level'') (VStr ''info''),
        ''message'' \<mapsto> field ?klog ''message'',
        ''source'' \<mapsto> VStr ''Log Parser'',
        ''timestamp'' \<mapsto> VDate 7,
        ''metadata'' \<mapsto> js_or (field ?klog ''metadata'') (VObj [])]]" by blast
  then have r_log: "handleAgentOutput example_parse ''Log Parser'' 7 1234 ?log =
     [CreateLog
       [''level'' \<mapsto> VStr ''warning'', ''message'' \<mapsto> VStr ''disk full'',
        ''source'' \<mapsto> VStr ''Log Parser'', ''timestamp'' \<mapsto> VDate 7, ''metadata'' \<mapsto> VObj []]]"
    by (simp add: field_def js_or_def digit_char_def)
  have p_alert: "starts_with (trim ?alert) ''{'' \<and> example_parse ?alert = Returns (VObj ?kalert)"
    by (simp add: trim_def is_space_def starts_with_def example_parse_def)
  have y_alert: "field ?kalert ''type'' = VStr ''alert''" by (simp add: field_def)
  from p_alert y_alert worker_output_handling
    [of ?alert example_parse "''Log Parser''" 7 1234 ?kalert]
  have "handleAgentOutput example_parse ''Log Parser'' 7 1234 ?alert =
     [CreateAlert
       [''severity'' \<mapsto> js_or (field ?kalert ''severity'') (VStr ''medium''),
        ''title'' \<mapsto> field ?kalert ''title'',
        ''description'' \<mapsto> field ?kalert ''description'',
        ''source'' \<mapsto> VStr ''Log Parser'',
        ''timestamp'' \<mapsto> VDate 7,
        ''status'' \<mapsto> VStr ''new'',
        ''metadata'' \<mapsto> js_or (field ?kalert ''metadata'') (VObj [])]]" by blast
  then have r_alert: "handleAgentOutput example_parse ''Log Parser'' 7 1234 ?alert =
     [CreateAlert
       [''severity'' \<mapsto> VStr ''critical'', ''title'' \<mapsto> VStr ''X'',
        ''description'' \<mapsto> VStr ''Y'', ''source'' \<mapsto> VStr ''Log Parser'',
        ''timestamp'' \<mapsto> VDate 7, ''status'' \<mapsto> VStr ''new'', ''metadata'' \<mapsto> VObj []]]"
    by (simp add: field_def js_or_def digit_char_def)
  have p_incident: "starts_with (trim ?incident) ''{'' \<and> example_parse ?incident = Returns (VObj ?kincident)"
    by (simp add: trim_def is_space_def starts_with_def example_parse_def)
  have y_incident: "field ?kincident ''type'' = VStr ''incident''" by (simp add: field_def)
  from p_incident y_incident worker_output_handling
    [of ?incident example_parse "''Log Parser''" 7 1234 ?kincident]
  have "handleAgentOutput example_parse ''Log Parser'' 7 1234 ?incident =
     [CreateIncident
       [''incidentId'' \<mapsto> VStr (''INC-'' @ string_of_nat 1234),
        ''type'' \<mapsto> field ?kincident ''incidentType'',
        ''status'' \<mapsto> VStr ''open'',
        ''source'' \<mapsto> VStr ''Log Parser'',
        ''timestamp'' \<mapsto> VDate 7,
        ''metadata'' \<mapsto> js_or (field ?kincident ''metadata'') (VObj [])]]" by blast
  then have r_incident: "handleAgentOutput example_parse ''Log Parser'' 7 1234 ?incident =
     [CreateIncident
       [''incidentId'' \<mapsto> VStr ''INC-1234'', ''type'' \<mapsto> VStr ''malware'',
        ''status'' \<mapsto> VStr ''open'', ''source'' \<mapsto> VStr ''Log Parser'',
        ''timestamp'' \<mapsto> VDate 7, ''metadata'' \<mapsto> VObj []]]"
    by (simp add: field_def js_or_def digit_char_def)
  have p_metric: "starts_with (trim ?metric) ''{'' \<and> example_parse ?metric = Returns (VObj ?kmetric)"
    by (simp add: trim_def is_space_def starts_with_def example_parse_def)
  have y_metric: "field ?kmetric ''type'' \<noteq> VStr ''log'' \<and> field ?kmetric ''type'' \<noteq> VStr ''alert'' \<and>
      field ?kmetric ''type'' \<noteq> VStr ''incident''" by (simp add: field_def)
  from p_metric y_metric worker_output_handling
    [of ?metric example_parse "''Log Parser''" 7 1234 ?kmetric]
  have "handleAgentOutput example_parse ''Log Parser'' 7 1234 ?metric =
     []" by blast
  then have r_metric: "handleAgentOutput example_parse ''Log Parser'' 7 1234 ?metric =
     []"
    by (simp add: field_def js_or_def digit_char_def)
  from a a' b b' c c' p_log r_log p_alert r_alert p_incident r_incident p_metric r_metric show ?thesis by blast
qed

text \<open>
  C2 (as amended). Starting an agent that is running returns success and does nothing else:
  no process is launched and no status is recorded, so the agent, its process and what
  the store and the cache hold stay as they were. Hence, from a stopped agent, a start
  that launches the worker, followed by a second start (whatever \<open>spawn\<close> or the store
  would do then), leaves the agent running with the one process of the first start,
  launched once, and one call to the store, of the first start, recording \<open>active\<close> (the
  status of the running state). The cache holds one \<open>active\<close> when that call to the store
  returned, and nothing when it threw.
\<close>

theorem start_running_agent_is_noop:
  "(isRunning a \<longrightarrow> start spawned now store_throws a = (True, a, [])) \<and>
   (\<not> isRunning a \<longrightarrow>
      (case start (Returns child) now store_throws a of
         (ok1, a1, es1) \<Rightarrow>
           (case start spawned' now' store_throws' a1 of
              (ok2, a2, es2) \<Rightarrow>
                ok1 \<and> isRunning a1 \<and> ok2 \<and> a2 = a1 \<and> es2 = [] \<and>
                isRunning a2 \<and> process a2 = Some child \<and>
                spawns (es1 @ es2) =
                  [Spawned (pythonScript a) (string_of_nat (agentId a)) (agentName a)] \<and>
                store_statuses (es1 @ es2) = [VStr ''active''] \<and>
                cache_statuses (es1 @ es2) = (if store_throws then [] else [''active'']))))"
  by (simp add: start_def agent_updateAgentStatus_def spawns_def store_statuses_def
      cache_statuses_def get_prop_def Let_def)

theorem start_running_agent_witness:
  "isRunning (fst (snd (start (Returns 4711) 7 False
     (new_PythonAgent 2 ''Log Parser'' ''log_parser.py'')))) \<and>
   start (Returns 4712) 8 False
     (fst (snd (start (Returns 4711) 7 False
        (new_PythonAgent 2 ''Log Parser'' ''log_parser.py'')))) =
     (True,
      fst (snd (start (Returns 4711) 7 False
        (new_PythonAgent 2 ''Log Parser'' ''log_parser.py''))), []) \<and>
   \<not> isRunning (new_PythonAgent 2 ''Log Parser'' ''log_parser.py'') \<and>
   process (fst (snd (start (Returns 4712) 8 False
     (fst (snd (start (Returns 4711) 7 False
        (new_PythonAgent 2 ''Log Parser'' ''log_parser.py''))))))) = Some 4711 \<and>
   cache_statuses
     (snd (snd (start (Returns 4711) 7 False
        (new_PythonAgent 2 ''Log Parser'' ''log_parser.py''))) @
      snd (snd (start (Returns 4712) 8 False
        (fst (snd (start (Returns 4711) 7 False
           (new_PythonAgent 2 ''Log Parser'' ''log_parser.py''))))))) = [''active'']"
proof -
  let ?a = "new_PythonAgent 2 ''Log Parser'' ''log_parser.py''"
  let ?a1 = "fst (snd (start (Returns 4711) 7 False ?a))"
  have n: "\<not> isRunning ?a" by (simp add: new_PythonAgent_def)
  have r: "isRunning ?a1" by (simp add: start_def new_PythonAgent_def Let_def)
  from r start_running_agent_is_noop
    [where a = ?a1 and spawned = "Returns 4712" and now = 8 and store_throws = False]
  have s: "start (Returns 4712) 8 False ?a1 = (True, ?a1, [])" by blast
  from n start_running_agent_is_noop
    [where a = ?a and child = 4711 and now = 7 and store_throws = False
       and spawned' = "Returns 4712" and now' = 8 and store_throws' = False]
  have "process (fst (snd (start (Returns 4712) 8 False ?a1))) = Some 4711 \<and>
     cache_statuses (snd (snd (start (Returns 4711) 7 False ?a)) @
       snd (snd (start (Returns 4712) 8 False ?a1))) = [''active'']"
    unfolding case_prod_beta by (simp only: if_False) blast
  with n r s show ?thesis by blast
qed

text \<open>
  C2 as stated fails when the store's update throws during the first start (the database
  is unreachable): the worker is launched and the agent is running, the second start is
  the no-op, and the cache, though available, holds no status at all, where the claim has
  exactly one recorded in the store and in the cache.
\<close>

theorem second_start_counterexample:
  "isRunning (fst (snd (start (Returns 4711) 7 True
     (new_PythonAgent 2 ''Log Parser'' ''log_parser.py'')))) \<and>
   start (Returns 4712) 8 False
     (fst (snd (start (Returns 4711) 7 True
        (new_PythonAgent 2 ''Log Parser'' ''log_parser.py'')))) =
     (True,
      fst (snd (start (Returns 4711) 7 True
        (new_PythonAgent 2 ''Log Parser'' ''log_parser.py''))), []) \<and>
   snd (snd (start (Returns 4711) 7 True
        (new_PythonAgent 2 ''Log Parser'' ''log_parser.py''))) @
      snd (snd (start (Returns 4712) 8 False
        (fst (snd (start (Returns 4711) 7 True
           (new_PythonAgent 2 ''Log Parser'' ''log_parser.py'')))))) =
     [Spawned ''log_parser.py'' ''2'' ''Log Parser'',
      UpdateAgent 2 [''status'' \<mapsto> VStr ''active'', ''lastActive'' \<mapsto> VDate 7]] \<and>
   cache_statuses
     (snd (snd (start (Returns 4711) 7 True
        (new_PythonAgent 2 ''Log Parser'' ''log_parser.py''))) @
      snd (snd (start (Returns 4712) 8 False
        (fst (snd (start (Returns 4711) 7 True
           (new_PythonAgent 2 ''Log Parser'' ''log_parser.py''))))))) = []"
  by (simp add: start_def new_PythonAgent_def agent_updateAgentStatus_def
      cache_statuses_def digit_char_def Let_def)

text \<open>
  C9 (as amended). When a worker process exits, whatever its exit code (0 included, or none
  when a signal ended it), and likewise when the process reports an error, the handler
  marks the agent not running and calls the Event Store's \<open>updateAgent\<close> with status \<open>error\<close>;
  when that call returns it then calls the Context Cache's \<open>updateAgentStatus\<close> with \<open>error\<close>;
  when that call throws the cache is not called. The handler records no other status and
  launches nothing.
\<close>

theorem exit_handler_records_error:
  "(case on_close code now store_throws a of
      (a', es) \<Rightarrow>
        \<not> isRunning a' \<and>
        store_statuses es = [VStr ''error''] \<and>
        cache_statuses es = (if store_throws then [] else [''error'']) \<and>
        spawns es = [] \<and>
        es = UpdateAgent (agentId a) [''status'' \<mapsto> VStr ''error'', ''lastActive'' \<mapsto> VDate now] #
             (if store_throws then []
              else [RedisUpdateAgentStatus (string_of_nat (agentId a)) ''error''])) \<and>
   on_error now store_throws a = on_close code now store_throws a"
  by (simp add: on_close_def on_error_def agent_updateAgentStatus_def spawns_def
      store_statuses_def cache_statuses_def get_prop_def Let_def)

theorem exit_handler_witness:
  "snd (on_close (Some 0) 9 False
     (fst (snd (start (Returns 4711) 7 False
        (new_PythonAgent 2 ''Log Parser'' ''log_parser.py''))))) =
     [UpdateAgent 2 [''status'' \<mapsto> VStr ''error'', ''lastActive'' \<mapsto> VDate 9],
      RedisUpdateAgentStatus ''2'' ''error''] \<and>
   \<not> isRunning (fst (on_close (Some 0) 9 False
     (fst (snd (start (Returns 4711) 7 False
        (new_PythonAgent 2 ''Log Parser'' ''log_parser.py''))))))"
proof -
  let ?a1 = "fst (snd (start (Returns 4711) 7 False
        (new_PythonAgent 2 ''Log Parser'' ''log_parser.py'')))"
  have i: "agentId ?a1 = 2" by (simp add: start_def new_PythonAgent_def Let_def)
  have d: "string_of_nat 2 = ''2''" by (simp add: digit_char_def)
  from exit_handler_records_error
    [where code = "Some 0" and now = 9 and store_throws = False and a = ?a1]
  show ?thesis unfolding i d by (simp add: case_prod_beta)
qed

text \<open>
  C9 as stated fails when the store's update throws (the database is unreachable): the
  process exits with code 0, the store call is made and fails, and the cache, though
  available, is never told.
\<close>

theorem exit_handler_counterexample:
  "cache_statuses (snd (on_close (Some 0) 9 True
     (fst (snd (start (Returns 4711) 7 False
        (new_PythonAgent 2 ''Log Parser'' ''log_parser.py'')))))) = [] \<and>
   snd (on_close (Some 0) 9 True
     (fst (snd (start (Returns 4711) 7 False
        (new_PythonAgent 2 ''Log Parser'' ''log_parser.py''))))) =
     [UpdateAgent 2 [''status'' \<mapsto> VStr ''error'', ''lastActive'' \<mapsto> VDate 9]]"
  by (simp add: on_close_def start_def new_PythonAgent_def agent_updateAgentStatus_def
      cache_statuses_def Let_def)

section \<open>The Realtime Hub\<close>

lemma load_initial_data_fails:
  assumes "\<not> reads_succeed st"
  shows "load_initial_data st now_iso = Throws"
  using assms unfolding reads_succeed_def load_initial_data_def
  by (cases "st_getAgents st"; cases "st_getAlerts st (Some 10)";
      cases "st_getIncidents st (Some 10)"; cases "st_getLogs st (Some 20)";
      cases "st_getResponseActions st"; cases "st_getLlmInsights st (Some 10)")
     (simp_all add: and_then_def)

lemma most_recent_limited:
  assumes "valid_times tm vals"
  shows "most_recent tm 10 (limited (Some 10) (sort_newest_first engine tm vals)) vals"
    and "most_recent tm 20 (limited (Some 20) (sort_newest_first engine tm vals)) vals"
  using most_recent_take[OF assms, of 10 engine] most_recent_take[OF assms, of 20 engine]
  by (simp_all add: limited_def slice0_def)

text \<open>
  C8 (as amended). On a new connection \<open>sendInitialData\<close> sends exactly one message. When the
  six reads of the store return, it is the \<open>initial_data\<close> snapshot, which carries what they
  returned: the agents, the result of \<open>getAlerts(10)\<close>, \<open>getIncidents(10)\<close>, \<open>getLogs(20)\<close>
  and \<open>getLlmInsights(10)\<close>, and the response actions. With the in-memory store behind the
  reads these are all agents and response actions and, for each kind whose stored
  timestamps are all valid times, the 10, 10, 20 and 10 most recent records, newest first.
  When a read throws, the one message is the error message instead.
\<close>

theorem connection_gets_one_message:
  "length (sendInitialData st now_iso) = 1 \<and>
   (\<not> reads_succeed st \<longrightarrow>
      sendInitialData st now_iso = [ErrorMessage ''Failed to load initial data'']) \<and>
   (st_getAgents st = Returns ag \<and> st_getAlerts st (Some 10) = Returns al \<and>
    st_getIncidents st (Some 10) = Returns inc \<and> st_getLogs st (Some 20) = Returns lg \<and>
    st_getResponseActions st = Returns ra \<and> st_getLlmInsights st (Some 10) = Returns li \<longrightarrow>
      map snapshot_lists (sendInitialData st now_iso) = [Some (ag, al, inc, lg, ra, li)]) \<and>
   map snapshot_lists (sendInitialData (mem_reads engine tm s) now_iso) =
     [Some (getAgents s, getAlerts engine tm (Some 10) s, getIncidents engine tm (Some 10) s,
            getLogs engine tm (Some 20) s, getResponseActions s,
            getLlmInsights engine tm (Some 10) s)] \<and>
   (valid_times tm (values_of (alerts s)) \<longrightarrow>
      most_recent tm 10 (getAlerts engine tm (Some 10) s) (values_of (alerts s))) \<and>
   (valid_times tm (values_of (incidents s)) \<longrightarrow>
      most_recent tm 10 (getIncidents engine tm (Some 10) s) (values_of (incidents s))) \<and>
   (valid_times tm (values_of (logs s)) \<longrightarrow>
      most_recent tm 20 (getLogs engine tm (Some 20) s) (values_of (logs s))) \<and>
   (valid_times tm (values_of (llmInsights s)) \<longrightarrow>
      most_recent tm 10 (getLlmInsights engine tm (Some 10) s) (values_of (llmInsights s)))"
proof (intro conjI impI)
  show "length (sendInitialData st now_iso) = 1"
    by (cases "load_initial_data st now_iso") (simp_all add: sendInitialData_def)
  show "sendInitialData st now_iso = [ErrorMessage ''Failed to load initial data'']"
    if "\<not> reads_succeed st"
    using load_initial_data_fails[OF that] by (simp add: sendInitialData_def)
  show "map snapshot_lists (sendInitialData st now_iso) = [Some (ag, al, inc, lg, ra, li)]"
    if "st_getAgents st = Returns ag \<and> st_getAlerts st (Some 10) = Returns al \<and>
    st_getIncidents st (Some 10) = Returns inc \<and> st_getLogs st (Some 20) = Returns lg \<and>
    st_getResponseActions st = Returns ra \<and> st_getLlmInsights st (Some 10) = Returns li"
    using that
    by (simp add: sendInitialData_def load_initial_data_def and_then_def snapshot_lists_def)
  show "map snapshot_lists (sendInitialData (mem_reads engine tm s) now_iso) =
     [Some (getAgents s, getAlerts engine tm (Some 10) s, getIncidents engine tm (Some 10) s,
            getLogs engine tm (Some 20) s, getResponseActions s,
            getLlmInsights engine tm (Some 10) s)]"
    by (simp add: sendInitialData_def load_initial_data_def and_then_def mem_reads_def
        snapshot_lists_def)
  show "most_recent tm 10 (getAlerts engine tm (Some 10) s) (values_of (alerts s))"
    if "valid_times tm (values_of (alerts s))"
    unfolding getAlerts_def using that by (rule most_recent_limited)
  show "most_recent tm 10 (getIncidents engine tm (Some 10) s) (values_of (incidents s))"
    if "valid_times tm (values_of (incidents s))"
    unfolding getIncidents_def using that by (rule most_recent_limited)
  show "most_recent tm 20 (getLogs engine tm (Some 20) s) (values_of (logs s))"
    if "valid_times tm (values_of (logs s))"
    unfolding getLogs_def using that by (rule most_recent_limited)
  show "most_recent tm 10 (getLlmInsights engine tm (Some 10) s) (values_of (llmInsights s))"
    if "valid_times tm (values_of (llmInsights s))"
    unfolding getLlmInsights_def using that by (rule most_recent_limited)
qed

text \<open>
  C8 as stated fails when a read of the store throws: the connection gets the error
  message, not a snapshot. And the cache status of a snapshot is not the view of the
  Context Cache: whatever the cache's state, here one that has no connection, the
  snapshot reports a healthy broker and a connected cache.
\<close>

theorem snapshot_counterexample:
  "\<not> reads_succeed failing_reads \<and>
   sendInitialData failing_reads ''2026-01-01T00:00:00.000Z'' =
     [ErrorMessage ''Failed to load initial data''] \<and>
   (\<forall>d. sendInitialData failing_reads ''2026-01-01T00:00:00.000Z'' \<noteq> [InitialData d]) \<and>
   isConnected example_net (new_RedisMCP False False) = False \<and>
   map (\<lambda>m. case m of
         InitialData d \<Rightarrow>
           (map_of (d_mcpStatus d) ''brokerStatus'', map_of (d_mcpStatus d) ''redisCache'')
       | ErrorMessage e \<Rightarrow> (None, None))
     (sendInitialData (mem_reads example_engine date_time example_store)
        ''2026-01-01T00:00:00.000Z'') =
     [(Some (VStr ''healthy''), Some (VStr ''connected''))]"
  by (simp add: sendInitialData_def load_initial_data_def and_then_def failing_reads_def
      mem_reads_def reads_succeed_def isConnected_def new_RedisMCP_def mcpStatus_def)

theorem connection_gets_one_message_witness:
  "\<not> reads_succeed failing_reads \<and>
   sendInitialData failing_reads ''2026-01-01T00:00:00.000Z'' =
     [ErrorMessage ''Failed to load initial data''] \<and>
   st_getAgents (mem_reads example_engine date_time example_store) =
     Returns (getAgents example_store) \<and>
   st_getAlerts (mem_reads example_engine date_time example_store) (Some 10) =
     Returns (getAlerts example_engine date_time (Some 10) example_store) \<and>
   st_getIncidents (mem_reads example_engine date_time example_store) (Some 10) =
     Returns (getIncidents example_engine date_time (Some 10) example_store) \<and>
   st_getLogs (mem_reads example_engine date_time example_store) (Some 20) =
     Returns (getLogs example_engine date_time (Some 20) example_store) \<and>
   st_getResponseActions (mem_reads example_engine date_time example_store) =
     Returns (getResponseActions example_store) \<and>
   st_getLlmInsights (mem_reads example_engine date_time example_store) (Some 10) =
     Returns (getLlmInsights example_engine date_time (Some 10) example_store) \<and>
   map snapshot_lists
     (sendInitialData (mem_reads example_engine date_time example_store)
        ''2026-01-01T00:00:00.000Z'') =
     [Some (getAgents example_store, getAlerts example_engine date_time (Some 10) example_store,
            getIncidents example_engine date_time (Some 10) example_store,
            getLogs example_engine date_time (Some 20) example_store,
            getResponseActions example_store,
            getLlmInsights example_engine date_time (Some 10) example_store)] \<and>
   length (getAgents example_store) = 4 \<and>
   length (getResponseActions example_store) = 4 \<and>
   valid_times date_time (values_of (alerts example_store)) \<and>
   most_recent date_time 10 (getAlerts example_engine date_time (Some 10) example_store)
     (values_of (alerts example_store)) \<and>
   map (\<lambda>r. get_prop r ''title'') (getAlerts example_engine date_time (Some 10) example_store) =
     [VStr ''B'', VStr ''A''] \<and>
   valid_times date_time (values_of (incidents example_store)) \<and>
   most_recent date_time 10 (getIncidents example_engine date_time (Some 10) example_store)
     (values_of (incidents example_store)) \<and>
   valid_times date_time (values_of (logs example_store)) \<and>
   most_recent date_time 20 (getLogs example_engine date_time (Some 20) example_store)
     (values_of (logs example_store)) \<and>
   valid_times date_time (values_of (llmInsights example_store)) \<and>
   most_recent date_time 10 (getLlmInsights example_engine date_time (Some 10) example_store)
     (values_of (llmInsights example_store))"
proof -
  let ?st = "mem_reads example_engine date_time example_store"
  note t = connection_gets_one_message
    [where st = failing_reads and now_iso = "''2026-01-01T00:00:00.000Z''"
       and tm = date_time and s = example_store and engine = example_engine]
  note u = connection_gets_one_message
    [where st = ?st and now_iso = "''2026-01-01T00:00:00.000Z''"
       and ag = "getAgents example_store"
       and al = "getAlerts example_engine date_time (Some 10) example_store"
       and inc = "getIncidents example_engine date_time (Some 10) example_store"
       and lg = "getLogs example_engine date_time (Some 20) example_store"
       and ra = "getResponseActions example_store"
       and li = "getLlmInsights example_engine date_time (Some 10) example_store"]
  have f: "\<not> reads_succeed failing_reads"
    by (simp add: failing_reads_def mem_reads_def reads_succeed_def)
  from f t have e: "sendInitialData failing_reads ''2026-01-01T00:00:00.000Z'' =
     [ErrorMessage ''Failed to load initial data'']" by blast
  have r: "st_getAgents ?st = Returns (getAgents example_store)"
    "st_getAlerts ?st (Some 10) = Returns (getAlerts example_engine date_time (Some 10) example_store)"
    "st_getIncidents ?st (Some 10) =
       Returns (getIncidents example_engine date_time (Some 10) example_store)"
    "st_getLogs ?st (Some 20) = Returns (getLogs example_engine date_time (Some 20) example_store)"
    "st_getResponseActions ?st = Returns (getResponseActions example_store)"
    "st_getLlmInsights ?st (Some 10) =
       Returns (getLlmInsights example_engine date_time (Some 10) example_store)"
    by (simp_all add: mem_reads_def)
  from r u have m: "map snapshot_lists (sendInitialData ?st ''2026-01-01T00:00:00.000Z'') =
     [Some (getAgents example_store, getAlerts example_engine date_time (Some 10) example_store,
            getIncidents example_engine date_time (Some 10) example_store,
            getLogs example_engine date_time (Some 20) example_store,
            getResponseActions example_store,
            getLlmInsights example_engine date_time (Some 10) example_store)]"
    by blast
  have g: "length (getAgents example_store) = 4"
    "length (getResponseActions example_store) = 4"
    by (simp_all add: example_store_eval getAgents_def getResponseActions_def values_of_def)
  note v = valid_times_example_store
  note w = valid_times_example_store_rest
  from v t have mr: "most_recent date_time 10
      (getAlerts example_engine date_time (Some 10) example_store)
      (values_of (alerts example_store))" by blast
  from w(1) t have mi: "most_recent date_time 10
      (getIncidents example_engine date_time (Some 10) example_store)
      (values_of (incidents example_store))" by blast
  from w(2) t have ml: "most_recent date_time 20
      (getLogs example_engine date_time (Some 20) example_store)
      (values_of (logs example_store))" by blast
  from w(3) t have mn: "most_recent date_time 10
      (getLlmInsights example_engine date_time (Some 10) example_store)
      (values_of (llmInsights example_store))" by blast
  have "getAlerts example_engine date_time (Some 10) example_store =
      take 10 (getAlerts example_engine date_time None example_store)"
    by (simp add: getAlerts_def limited_def slice0_def)
  then have h: "map (\<lambda>r. get_prop r ''title'')
      (getAlerts example_engine date_time (Some 10) example_store) = [VStr ''B'', VStr ''A'']"
    using alerts_of_example_store by (simp add: take_map[symmetric])
  from f e r m g v mr h w mi ml mn show ?thesis by blast
qed

text \<open>
  The two status objects of the snapshot are written out in \<open>sendInitialData\<close> itself: the
  function does not consult the Context Cache, and the entry \<open>mcpStatus\<close> it sends is the
  same whatever the cache's state.
\<close>

lemma snapshot_status_entries:
  assumes "sendInitialData st now_iso = [InitialData d]"
  shows "d_mcpStatus d = mcpStatus now_iso \<and> d_llmStatus d = llmStatus"
proof (cases "load_initial_data st now_iso")
  case Throws
  with assms show ?thesis by (simp add: sendInitialData_def)
next
  case (Returns d')
  with assms have "d' = d" by (simp add: sendInitialData_def)
  with Returns show ?thesis
    unfolding load_initial_data_def and_then_def
    by (auto split: outcome.splits)
qed

end
